theory Spec2Isabelle
  imports Complex_Main
begin

section \<open>JavaScript values and the operations the analyzer applies to them\<close>

text \<open>
  The stats document reaches \<open>extractMetrics\<close> from \<open>JSON.parse\<close>, typed \<open>any\<close>: a tree of
  null, booleans, numbers, strings, arrays and objects. \<open>JUndef\<close> is the value of a missing
  property. An object is the list of its own properties in enumeration order; a property is
  read with \<open>map_of\<close>. Numbers are rationals: the sums and quotients of the source are taken
  exactly, which is what IEEE doubles give on byte counts below \<open>2^53\<close>. Strings are lists
  of characters.
\<close>

datatype jv =
    JUndef
  | JNull
  | JBool bool
  | JNum rat
  | JStr string
  | JArr "jv list"
  | JObj "(string \<times> jv) list"

text \<open>
  An evaluation either yields a value, throws (every throw in this code is a \<open>TypeError\<close>
  of the runtime), or leaves the modelled fragment: \<open>Unmodelled\<close> stands for the places where
  JavaScript would convert a non-number to a number or a string inside arithmetic, convert a
  fractional or very large number or an array to a string, or read a property that
  \<open>Object.prototype\<close> supplies. Nothing is claimed about a run that is \<open>Unmodelled\<close>;
  the section on every document follows the source through these conversions as well.
\<close>

datatype 'a res = Ok 'a | Throws | Unmodelled

fun bind_res :: "'a res \<Rightarrow> ('a \<Rightarrow> 'b res) \<Rightarrow> 'b res" where
  "bind_res (Ok x) f = f x"
| "bind_res Throws f = Throws"
| "bind_res Unmodelled f = Unmodelled"

text \<open>Truthiness, as tested by \<open>!x\<close>, \<open>x && y\<close>, \<open>x || y\<close> and \<open>filter(x => x)\<close>.\<close>

fun truthy :: "jv \<Rightarrow> bool" where
  "truthy JUndef = False"
| "truthy JNull = False"
| "truthy (JBool b) = b"
| "truthy (JNum n) = (n \<noteq> 0)"
| "truthy (JStr s) = (s \<noteq> [])"
| "truthy (JArr xs) = True"
| "truthy (JObj fs) = True"

text \<open>\<open>a || b\<close>, for an operand \<open>b\<close> whose evaluation has no effect.\<close>

definition or_js :: "jv \<Rightarrow> jv \<Rightarrow> jv" where
  "or_js a b = (if truthy a then a else b)"

fun nullish :: "jv \<Rightarrow> bool" where
  "nullish JUndef = True"
| "nullish JNull = True"
| "nullish v = False"

text \<open>
  \<open>v?.k\<close>: the own property \<open>k\<close> of an object, \<open>undefined\<close> on anything else. It is used
  only with the names \<open>time\<close>, \<open>assets\<close>, \<open>entrypoints\<close>, \<open>modules\<close>, \<open>chunks\<close>, \<open>size\<close>,
  \<open>name\<close>, \<open>names\<close>, \<open>id\<close> and \<open>0\<close>, none of which a prototype of a parsed value
  supplies (the index \<open>0\<close> of an array or a string is read by \<open>first_elem\<close>).
\<close>

fun get_field :: "jv \<Rightarrow> string \<Rightarrow> jv" where
  "get_field (JObj fs) k = (case map_of fs k of Some v \<Rightarrow> v | None \<Rightarrow> JUndef)"
| "get_field v k = JUndef"

text \<open>\<open>v.k\<close>: throws on \<open>null\<close> and \<open>undefined\<close>.\<close>

definition get_prop :: "jv \<Rightarrow> string \<Rightarrow> jv res" where
  "get_prop v k = (if nullish v then Throws else Ok (get_field v k))"

text \<open>\<open>v?.[0]\<close>: the first element of an array, the first character of a string.\<close>

fun first_elem :: "jv \<Rightarrow> jv" where
  "first_elem (JArr xs) = (case xs of [] \<Rightarrow> JUndef | x # _ \<Rightarrow> x)"
| "first_elem (JStr s) = (case s of [] \<Rightarrow> JUndef | c # _ \<Rightarrow> JStr [c])"
| "first_elem (JObj fs) = get_field (JObj fs) ''0''"
| "first_elem v = JUndef"

fun isArray :: "jv \<Rightarrow> bool" where
  "isArray (JArr xs) = True"
| "isArray v = False"

text \<open>The elements of an array, read after \<open>Array.isArray\<close> has answered true.\<close>

fun elements :: "jv \<Rightarrow> jv list" where
  "elements (JArr xs) = xs"
| "elements v = []"

text \<open>\<open>typeof v === 'number'\<close>.\<close>

fun is_number :: "jv \<Rightarrow> bool" where
  "is_number (JNum n) = True"
| "is_number v = False"

text \<open>\<open>typeof v === 'object' && v !== null\<close>.\<close>

fun is_object :: "jv \<Rightarrow> bool" where
  "is_object (JArr xs) = True"
| "is_object (JObj fs) = True"
| "is_object v = False"

text \<open>
  \<open>x || 0\<close> as an operand of \<open>+\<close> or \<open>-\<close>: a falsy \<open>x\<close> gives 0 and a number gives itself.
  On any other value JavaScript goes on with a conversion (to a string for \<open>+\<close>), where
  this function abstains.
\<close>

fun num_or_zero :: "jv \<Rightarrow> rat res" where
  "num_or_zero (JNum n) = Ok n"
| "num_or_zero v = (if truthy v then Unmodelled else Ok 0)"

text \<open>
  \<open>x > 0\<close>: \<open>undefined\<close> converts to \<open>NaN\<close>, and \<open>null\<close>, \<open>false\<close> and the empty string to 0,
  so every falsy value compares false.
\<close>

fun gt_zero :: "jv \<Rightarrow> bool res" where
  "gt_zero (JNum n) = Ok (0 < n)"
| "gt_zero v = (if truthy v then Unmodelled else Ok False)"

subsection \<open>Strings\<close>

fun starts_with :: "string \<Rightarrow> string \<Rightarrow> bool" where
  "starts_with s [] = True"
| "starts_with [] (p # ps) = False"
| "starts_with (c # cs) (p # ps) = (c = p \<and> starts_with cs ps)"

text \<open>\<open>s.indexOf(p)\<close>, with \<open>None\<close> for \<open>-1\<close>.\<close>

fun index_of :: "string \<Rightarrow> string \<Rightarrow> nat option" where
  "index_of [] p = (if p = [] then Some 0 else None)"
| "index_of (c # cs) p =
     (if starts_with (c # cs) p then Some 0 else map_option Suc (index_of cs p))"

text \<open>\<open>s.includes(p)\<close> on strings.\<close>

definition includes_str :: "string \<Rightarrow> string \<Rightarrow> bool" where
  "includes_str s p = (index_of s p \<noteq> None)"

definition digit_char :: "nat \<Rightarrow> char" where
  "digit_char d = ''0123456789'' ! d"

fun digits10 :: "nat \<Rightarrow> string" where
  "digits10 n = (if n < 10 then [digit_char n] else digits10 (n div 10) @ [digit_char (n mod 10)])"

declare digits10.simps [simp del]

text \<open>
  \<open>Number.prototype.toString\<close> on an integer below \<open>2^53\<close> in absolute value: its decimal
  digits. Other numbers print the shortest digits that read back as the same double, with
  a fraction or an exponent, which is not modelled here.
\<close>

definition num_to_string :: "rat \<Rightarrow> string res" where
  "num_to_string n =
     (if n = of_int \<lfloor>n\<rfloor> \<and> \<bar>n\<bar> < 2 ^ 53
      then Ok ((if n < 0 then ''-'' else '''') @ digits10 (nat \<bar>\<lfloor>n\<rfloor>\<bar>))
      else Unmodelled)"

text \<open>
  The string of a value, as \<open>v.toString()\<close> and as the conversion of an argument of
  \<open>String.prototype.includes\<close> compute it. A parsed object has no callable \<open>toString\<close> of
  its own: when it has a property of that name the call throws, otherwise
  \<open>Object.prototype.toString\<close> answers.
\<close>

fun to_str :: "jv \<Rightarrow> string res" where
  "to_str JUndef = Ok ''undefined''"
| "to_str JNull = Ok ''null''"
| "to_str (JBool b) = Ok (if b then ''true'' else ''false'')"
| "to_str (JNum n) = num_to_string n"
| "to_str (JStr s) = Ok s"
| "to_str (JArr xs) = Unmodelled"
| "to_str (JObj fs) = (if map_of fs ''toString'' \<noteq> None then Throws else Ok ''[object Object]'')"

text \<open>\<open>v?.toString()\<close>.\<close>

definition opt_toString :: "jv \<Rightarrow> jv res" where
  "opt_toString v = (if nullish v then Ok JUndef else bind_res (to_str v) (\<lambda>s. Ok (JStr s)))"

text \<open>
  \<open>xs.includes(v)\<close> on an array compares with SameValueZero: primitives by value, arrays and
  objects by identity. The document is a tree, so an array or object read from one place is
  never identical to an element read from another.
\<close>

fun same_value_zero :: "jv \<Rightarrow> jv \<Rightarrow> bool" where
  "same_value_zero (JArr xs) w = False"
| "same_value_zero (JObj fs) w = False"
| "same_value_zero v w = (v = w)"

text \<open>
  \<open>h.includes(v)\<close> for a truthy \<open>h\<close>: the array method, the string method, and a
  \<open>TypeError\<close> on a number, \<open>true\<close> or an object, where \<open>includes\<close> is not a function.
\<close>

fun includes_js :: "jv \<Rightarrow> jv \<Rightarrow> bool res" where
  "includes_js (JArr xs) v = Ok (\<exists>x \<in> set xs. same_value_zero v x)"
| "includes_js (JStr s) v = bind_res (to_str v) (\<lambda>p. Ok (includes_str s p))"
| "includes_js h v = Throws"

section \<open>The chunk size resolver\<close>

text \<open>The reducer \<open>(total, module) => total + (module?.size || 0)\<close>, folded from the left.\<close>

fun sum_module_sizes :: "jv list \<Rightarrow> rat \<Rightarrow> rat res" where
  "sum_module_sizes [] tot = Ok tot"
| "sum_module_sizes (m # ms) tot =
     bind_res (num_or_zero (get_field m ''size'')) (\<lambda>x. sum_module_sizes ms (tot + x))"

text \<open>
  \<open>(chunkId && asset.chunks && asset.chunks.includes(chunkId)) ||
   (chunkName && asset.name && asset.name.includes(chunkName))\<close>, read for its truth value.
\<close>

definition isChunkAsset :: "jv \<Rightarrow> jv \<Rightarrow> jv \<Rightarrow> bool res" where
  "isChunkAsset chunkId chunkName asset =
     bind_res
       (if truthy chunkId \<and> truthy (get_field asset ''chunks'')
        then includes_js (get_field asset ''chunks'') chunkId else Ok False)
       (\<lambda>byId.
          if byId then Ok True
          else if truthy chunkName \<and> truthy (get_field asset ''name'')
          then includes_js (get_field asset ''name'') chunkName else Ok False)"

fun sum_chunk_assets :: "jv \<Rightarrow> jv \<Rightarrow> jv list \<Rightarrow> rat \<Rightarrow> rat res" where
  "sum_chunk_assets chunkId chunkName [] tot = Ok tot"
| "sum_chunk_assets chunkId chunkName (asset # assets) tot =
     (if \<not> truthy asset then sum_chunk_assets chunkId chunkName assets tot
      else bind_res (isChunkAsset chunkId chunkName asset) (\<lambda>hit.
           bind_res (if hit then num_or_zero (get_field asset ''size'') else Ok 0) (\<lambda>x.
           sum_chunk_assets chunkId chunkName assets (tot + x))))"

definition calculateChunkSize :: "jv \<Rightarrow> jv \<Rightarrow> rat res" where
  "calculateChunkSize chunk stats =
     (if \<not> truthy chunk then Ok 0
      else case get_field chunk ''size'' of
        JNum n \<Rightarrow> Ok n
      | _ \<Rightarrow>
        if isArray (get_field chunk ''modules'')
        then sum_module_sizes (elements (get_field chunk ''modules'')) 0
        else
          bind_res (get_prop stats ''assets'') (\<lambda>assets.
            if isArray assets \<and>
               (get_field chunk ''id'' \<noteq> JUndef \<or> get_field chunk ''name'' \<noteq> JUndef)
            then
              bind_res (opt_toString (get_field chunk ''id'')) (\<lambda>chunkId.
                sum_chunk_assets chunkId
                  (or_js (first_elem (get_field chunk ''names'')) (get_field chunk ''name''))
                  (elements assets) 0)
            else Ok 0))"

section \<open>The module classifier\<close>

text \<open>
  \<open>path.extname\<close> of Node, in its POSIX form (on Windows the backslash separates as
  well): the scan runs from the last character to the first, and stops at the first
  separator that follows a character of the last path component. \<open>extname_scan path i st\<close>
  is the loop with \<open>i\<close> characters still to visit.
\<close>

record ext_state =
  startDot :: int
  startPart :: int
  endPos :: int
  matchedSlash :: bool
  preDotState :: int

fun extname_scan :: "string \<Rightarrow> nat \<Rightarrow> ext_state \<Rightarrow> ext_state" where
  "extname_scan path 0 st = st"
| "extname_scan path (Suc i) st =
     (if path ! i = CHR ''/'' then
        (if \<not> matchedSlash st then st\<lparr>startPart := int i + 1\<rparr>
         else extname_scan path i st)
      else
        (let st1 = (if endPos st = - 1 then st\<lparr>matchedSlash := False, endPos := int i + 1\<rparr>
                    else st);
             st2 = (if path ! i = CHR ''.'' then
                      (if startDot st1 = - 1 then st1\<lparr>startDot := int i\<rparr>
                       else if preDotState st1 \<noteq> 1 then st1\<lparr>preDotState := 1\<rparr>
                       else st1)
                    else if startDot st1 \<noteq> - 1 then st1\<lparr>preDotState := - 1\<rparr>
                    else st1)
         in extname_scan path i st2))"

definition extname :: "string \<Rightarrow> string" where
  "extname path =
     (let st = extname_scan path (length path)
                 \<lparr>startDot = - 1, startPart = 0, endPos = - 1, matchedSlash = True,
                  preDotState = 0\<rparr>
      in if startDot st = - 1 \<or> endPos st = - 1 \<or> preDotState st = 0 \<or>
            (preDotState st = 1 \<and> startDot st = endPos st - 1 \<and> startDot st = startPart st + 1)
         then []
         else take (nat (endPos st) - nat (startDot st)) (drop (nat (startDot st)) path))"

text \<open>
  \<open>toLowerCase\<close> on the letters \<open>A\<close> to \<open>Z\<close>. No other character lowers to a letter of the
  extensions the classifier knows, so the classification is that of the source.
\<close>

definition to_lower :: "char \<Rightarrow> char" where
  "to_lower c =
     (case map_of (zip ''ABCDEFGHIJKLMNOPQRSTUVWXYZ'' ''abcdefghijklmnopqrstuvwxyz'') c of
        Some l \<Rightarrow> l
      | None \<Rightarrow> c)"

definition getModuleType :: "string \<Rightarrow> string" where
  "getModuleType modulePath =
     (if modulePath = [] then ''unknown''
      else if includes_str modulePath ''node_modules'' then
        (case index_of modulePath ''node_modules'' of
           Some nodeModulesIndex \<Rightarrow>
             (let packagePath = drop (nodeModulesIndex + length ''node_modules/'') modulePath;
                  packageName = takeWhile (\<lambda>c. c \<noteq> CHR ''/'') packagePath
              in ''npm:'' @ packageName)
         | None \<Rightarrow> ''npm'')
      else
        (let ext = map to_lower (extname modulePath) in
         if ext = ''.js'' \<or> ext = ''.jsx'' then ''javascript''
         else if ext = ''.ts'' \<or> ext = ''.tsx'' then ''typescript''
         else if ext = ''.css'' \<or> ext = ''.scss'' \<or> ext = ''.less'' then ''styles''
         else if ext = ''.svg'' \<or> ext = ''.png'' \<or> ext = ''.jpg'' \<or> ext = ''.jpeg'' \<or> ext = ''.gif''
         then ''image''
         else if ext = ''.json'' then ''json''
         else ''other''))"

text \<open>
  The classifier as \<open>extractMetrics\<close> calls it, on \<open>module.name || ''\<close>: a truthy name that
  is not a string has no string method \<open>includes\<close> to call (a number, \<open>true\<close>, an object), or
  is an array, which \<open>slice\<close> and \<open>split\<close> or \<open>path.extname\<close> then reject; all throw.
\<close>

fun getModuleType_of :: "jv \<Rightarrow> string res" where
  "getModuleType_of (JStr s) = Ok (getModuleType s)"
| "getModuleType_of v = (if truthy v then Throws else Ok ''unknown'')"

section \<open>The metrics report\<close>

record entrypoint_info =
  ep_size :: rat
  ep_chunks :: jv

record module_info =
  lm_name :: jv
  lm_size :: rat
  lm_type :: string

record chunk_info =
  lc_id :: string
  lc_name :: jv
  lc_size :: rat
  lc_modules :: nat

record performance_info =
  initialLoad :: rat
  cacheEfficiency :: rat
  chunkFragmentation :: rat

record metrics =
  totalSize :: rat
  totalSizeByType :: "(string \<times> rat) list"
  entrypoints :: "(string \<times> entrypoint_info) list"
  largestModules :: "module_info list"
  largestChunks :: "chunk_info list"
  moduleCount :: nat
  chunkCount :: nat
  assetCount :: nat
  buildTime :: jv
  performance :: performance_info

text \<open>What \<open>extractMetrics\<close> returns: the report, or the object \<open>{ error: ... }\<close> of its handler.\<close>

datatype report = Metrics metrics | ErrorReport string

definition initial_metrics :: "jv \<Rightarrow> metrics" where
  "initial_metrics t =
     \<lparr>totalSize = 0, totalSizeByType = [], entrypoints = [], largestModules = [],
      largestChunks = [], moduleCount = 0, chunkCount = 0, assetCount = 0, buildTime = t,
      performance = \<lparr>initialLoad = 0, cacheEfficiency = 0, chunkFragmentation = 0\<rparr>\<rparr>"

text \<open>\<open>obj[k] = v\<close> on an object kept as the list of its own properties.\<close>

fun set_own :: "(string \<times> 'a) list \<Rightarrow> string \<Rightarrow> 'a \<Rightarrow> (string \<times> 'a) list" where
  "set_own [] k v = [(k, v)]"
| "set_own ((k', v') # ps) k v = (if k' = k then (k, v) # ps else (k', v') # set_own ps k v)"

fun map_res :: "('a \<Rightarrow> 'b res) \<Rightarrow> 'a list \<Rightarrow> 'b list res" where
  "map_res f [] = Ok []"
| "map_res f (x # xs) = bind_res (f x) (\<lambda>y. bind_res (map_res f xs) (\<lambda>ys. Ok (y # ys)))"

text \<open>
  \<open>xs.sort((a, b) => key(b) - key(a))\<close> on numeric keys: the sort of ECMAScript is stable
  (in Node from version 11 on), so elements of equal key keep their order. The elements
  carry their keys.
\<close>

definition sort_desc :: "(rat \<times> 'a) list \<Rightarrow> (rat \<times> 'a) list" where
  "sort_desc xs = sort_key (\<lambda>p. - fst p) xs"

subsection \<open>Assets\<close>

text \<open>The property names every object inherits from \<open>Object.prototype\<close>.\<close>

definition object_prototype_names :: "string list" where
  "object_prototype_names =
     [''constructor'', ''__defineGetter__'', ''__defineSetter__'', ''hasOwnProperty'',
      ''__lookupGetter__'', ''__lookupSetter__'', ''isPrototypeOf'', ''propertyIsEnumerable'',
      ''toString'', ''valueOf'', ''__proto__'', ''toLocaleString'']"

text \<open>\<open>path.extname(x)\<close>: Node rejects an argument that is not a string.\<close>

fun extname_of :: "jv \<Rightarrow> string res" where
  "extname_of (JStr s) = Ok (extname s)"
| "extname_of v = Throws"

text \<open>\<open>s.replace('.', '')\<close>: the first dot is removed.\<close>

fun replace_dot :: "string \<Rightarrow> string" where
  "replace_dot [] = []"
| "replace_dot (c # cs) = (if c = CHR ''.'' then cs else c # replace_dot cs)"

text \<open>\<open>e.replace('.', '') || 'unknown'\<close>.\<close>

definition file_type :: "string \<Rightarrow> string" where
  "file_type e = (if replace_dot e = [] then ''unknown'' else replace_dot e)"

text \<open>
  The body of \<open>stats.assets.forEach\<close>. \<open>metrics.totalSizeByType[ext] || 0\<close> reads an own
  property, except when \<open>ext\<close> names a property of \<open>Object.prototype\<close>: the inherited
  function is truthy and \<open>+\<close> concatenates strings.
\<close>

fun assets_loop :: "jv list \<Rightarrow> metrics \<Rightarrow> metrics res" where
  "assets_loop [] m = Ok m"
| "assets_loop (asset # assets) m =
     (if \<not> truthy asset then assets_loop assets m
      else
        bind_res (num_or_zero (get_field asset ''size'')) (\<lambda>sz.
        bind_res (extname_of (or_js (get_field asset ''name'') (JStr []))) (\<lambda>e.
          let ext = file_type e in
          if ext \<in> set object_prototype_names then Unmodelled
          else
            assets_loop assets
              (m\<lparr>totalSize := totalSize m + sz,
                 totalSizeByType :=
                   set_own (totalSizeByType m) ext
                     ((case map_of (totalSizeByType m) ext of Some v \<Rightarrow> v | None \<Rightarrow> 0) + sz)\<rparr>))))"

definition assets_pass :: "jv \<Rightarrow> metrics \<Rightarrow> metrics res" where
  "assets_pass stats m =
     (if isArray (get_field stats ''assets'')
      then assets_loop (elements (get_field stats ''assets''))
             (m\<lparr>assetCount := length (elements (get_field stats ''assets''))\<rparr>)
      else Ok m)"

subsection \<open>Entrypoints\<close>

text \<open>
  \<open>Object.entries(v)\<close> for a truthy \<open>v\<close>: the own properties of an object, the indexed
  elements of an array, the indexed characters of a string, nothing for a number or \<open>true\<close>.
\<close>

definition indexed :: "jv list \<Rightarrow> (string \<times> jv) list" where
  "indexed xs = zip (map digits10 [0 ..< length xs]) xs"

fun entries_of :: "jv \<Rightarrow> (string \<times> jv) list" where
  "entries_of (JObj fs) = fs"
| "entries_of (JArr xs) = indexed xs"
| "entries_of (JStr s) = indexed (map (\<lambda>c. JStr [c]) s)"
| "entries_of v = []"

fun sum_entry_assets :: "jv list \<Rightarrow> rat \<Rightarrow> rat res" where
  "sum_entry_assets [] entrypointSize = Ok entrypointSize"
| "sum_entry_assets (asset # assets) entrypointSize =
     (if is_object asset
      then bind_res (num_or_zero (get_field asset ''size'')) (\<lambda>x.
             sum_entry_assets assets (entrypointSize + x))
      else sum_entry_assets assets entrypointSize)"

text \<open>
  The body of \<open>Object.entries(stats.entrypoints).forEach\<close>. Assigning to the key
  \<open>__proto__\<close> sets the prototype of \<open>metrics.entrypoints\<close> and adds no property.
\<close>

fun entrypoints_loop :: "(string \<times> jv) list \<Rightarrow> metrics \<Rightarrow> metrics res" where
  "entrypoints_loop [] m = Ok m"
| "entrypoints_loop ((name, entrypoint) # rest) m =
     (if \<not> truthy entrypoint then entrypoints_loop rest m
      else
        bind_res
          (if isArray (get_field entrypoint ''assets'')
           then sum_entry_assets (elements (get_field entrypoint ''assets'')) 0
           else Ok 0)
          (\<lambda>entrypointSize.
             entrypoints_loop rest
               (m\<lparr>entrypoints :=
                    (if name = ''__proto__'' then entrypoints m
                     else set_own (entrypoints m) name
                            \<lparr>ep_size = entrypointSize,
                             ep_chunks = or_js (get_field entrypoint ''chunks'') (JArr [])\<rparr>),
                  performance :=
                    (if name = ''main'' \<or> name = ''index''
                     then (performance m)\<lparr>initialLoad := entrypointSize / 1024\<rparr>
                     else performance m)\<rparr>)))"

definition entrypoints_pass :: "jv \<Rightarrow> metrics \<Rightarrow> metrics res" where
  "entrypoints_pass stats m =
     (if truthy (get_field stats ''entrypoints'')
      then entrypoints_loop (entries_of (get_field stats ''entrypoints'')) m
      else Ok m)"

subsection \<open>Modules\<close>

text \<open>\<open>module && module.size > 0\<close>.\<close>

definition valid_module :: "jv \<Rightarrow> bool res" where
  "valid_module mdl = (if truthy mdl then gt_zero (get_field mdl ''size'') else Ok False)"

fun filter_res :: "('a \<Rightarrow> bool res) \<Rightarrow> 'a list \<Rightarrow> 'a list res" where
  "filter_res p [] = Ok []"
| "filter_res p (x # xs) =
     bind_res (p x) (\<lambda>keep. bind_res (filter_res p xs) (\<lambda>ys. Ok (if keep then x # ys else ys)))"

text \<open>The key \<open>module.size || 0\<close> of the comparator, paired with its module.\<close>

definition module_key :: "jv \<Rightarrow> (rat \<times> jv) res" where
  "module_key mdl = bind_res (num_or_zero (get_field mdl ''size'')) (\<lambda>k. Ok (k, mdl))"

definition module_entry :: "rat \<times> jv \<Rightarrow> module_info res" where
  "module_entry p =
     bind_res (getModuleType_of (or_js (get_field (snd p) ''name'') (JStr []))) (\<lambda>t.
       Ok \<lparr>lm_name = or_js (get_field (snd p) ''name'') (JStr ''unknown''),
           lm_size = fst p, lm_type = t\<rparr>)"

text \<open>
  The source filters \<open>stats.modules\<close> twice with the same callback, once for the count and
  once before the sort; the filter has no effect, so it is evaluated once here.
\<close>

definition modules_pass :: "jv \<Rightarrow> metrics \<Rightarrow> metrics res" where
  "modules_pass stats m =
     (if isArray (get_field stats ''modules'')
      then
        bind_res (filter_res valid_module (elements (get_field stats ''modules''))) (\<lambda>valid.
        bind_res (map_res module_key valid) (\<lambda>keyed.
        bind_res (map_res module_entry (take 20 (sort_desc keyed))) (\<lambda>largest.
          Ok (m\<lparr>moduleCount := length valid, largestModules := largest\<rparr>))))
      else Ok m)"

subsection \<open>Chunks\<close>

text \<open>
  The comparator of the chunk sort calls \<open>calculateChunkSize\<close> on both of its arguments.
  A sort of two or more elements hands every element to the comparator, and the one chunk of
  a one-element array is resolved by the \<open>map\<close> that follows, so every truthy chunk is
  resolved before the report is built and a throw of any of them is a throw of the pass.
  \<open>valid_chunks\<close> is \<open>stats.chunks.filter(chunk => chunk)\<close>, which the source computes once
  for the count and once before the sort.
\<close>

definition chunk_key :: "jv \<Rightarrow> jv \<Rightarrow> (rat \<times> jv) res" where
  "chunk_key stats chunk = bind_res (calculateChunkSize chunk stats) (\<lambda>k. Ok (k, chunk))"

definition chunk_entry :: "rat \<times> jv \<Rightarrow> chunk_info res" where
  "chunk_entry p =
     bind_res (opt_toString (get_field (snd p) ''id'')) (\<lambda>i.
       Ok \<lparr>lc_id = (case i of JStr s \<Rightarrow> (if s = [] then ''unknown'' else s) | _ \<Rightarrow> ''unknown''),
           lc_name = or_js (first_elem (get_field (snd p) ''names''))
                       (or_js (get_field (snd p) ''name'') (JStr ''unnamed chunk'')),
           lc_size = fst p,
           lc_modules = (if isArray (get_field (snd p) ''modules'')
                         then length (elements (get_field (snd p) ''modules'')) else 0)\<rparr>)"

definition valid_chunks :: "jv \<Rightarrow> jv list" where
  "valid_chunks stats = filter truthy (elements (get_field stats ''chunks''))"

definition chunks_pass :: "jv \<Rightarrow> metrics \<Rightarrow> metrics res" where
  "chunks_pass stats m =
     (if isArray (get_field stats ''chunks'')
      then
        bind_res (map_res (chunk_key stats) (valid_chunks stats)) (\<lambda>keyed.
        bind_res (map_res chunk_entry (take 10 (sort_desc keyed))) (\<lambda>largest.
          Ok (m\<lparr>chunkCount := length (valid_chunks stats), largestChunks := largest,
                performance :=
                  (if 0 < length (valid_chunks stats)
                   then (performance m)
                          \<lparr>chunkFragmentation :=
                             min (of_nat (length (valid_chunks stats)) /
                                  of_nat (max (length (entrypoints m)) 1)) 100\<rparr>
                   else performance m)\<rparr>)))
      else Ok m)"

subsection \<open>Cache efficiency and the whole extraction\<close>

text \<open>\<open>metrics.entrypoints?.[name]?.size\<close>, with \<open>None\<close> for \<open>undefined\<close>.\<close>

definition entry_size :: "metrics \<Rightarrow> string \<Rightarrow> rat option" where
  "entry_size m name = map_option ep_size (map_of (entrypoints m) name)"

text \<open>\<open>a || b || 0\<close> on sizes: \<open>undefined\<close> and 0 are falsy.\<close>

definition mainBundleSize :: "metrics \<Rightarrow> rat" where
  "mainBundleSize m =
     (case entry_size m ''main'' of
        Some a \<Rightarrow> (if a \<noteq> 0 then a else (case entry_size m ''index'' of Some b \<Rightarrow> b | None \<Rightarrow> 0))
      | None \<Rightarrow> (case entry_size m ''index'' of Some b \<Rightarrow> b | None \<Rightarrow> 0))"

definition cache_pass :: "metrics \<Rightarrow> metrics" where
  "cache_pass m =
     (if 0 < totalSize m \<and> 1 < chunkCount m
      then m\<lparr>performance :=
               (performance m)
                 \<lparr>cacheEfficiency :=
                    min ((totalSize m - mainBundleSize m) / totalSize m * 100) 100\<rparr>\<rparr>
      else m)"

definition extract_body :: "jv \<Rightarrow> metrics res" where
  "extract_body stats =
     bind_res (get_prop stats ''time'') (\<lambda>t.
     bind_res (assets_pass stats (initial_metrics (or_js t (JNum 0)))) (\<lambda>m1.
     bind_res (entrypoints_pass stats m1) (\<lambda>m2.
     bind_res (modules_pass stats m2) (\<lambda>m3.
     bind_res (chunks_pass stats m3) (\<lambda>m4.
     Ok (cache_pass m4))))))"

text \<open>The \<open>try\<close> and its handler: whatever the body throws becomes the error object.\<close>

definition extractMetrics :: "jv \<Rightarrow> report res" where
  "extractMetrics stats =
     (case extract_body stats of
        Ok m \<Rightarrow> Ok (Metrics m)
      | Throws \<Rightarrow> Ok (ErrorReport ''Failed to extract metrics'')
      | Unmodelled \<Rightarrow> Unmodelled)"

section \<open>The extraction on every document\<close>

text \<open>
  The functions above abstain (\<open>Unmodelled\<close>) where JavaScript converts a value. The
  functions of this section follow the same source lines on every document and never
  abstain: a size may be any value, a sum may be a string, and a number may be \<open>NaN\<close> or
  infinite. Numbers stay exact, and a zero has no sign. What only the engine decides is a
  parameter of the evaluation, the \<open>runtime\<close>: the digits of a number that is not an
  integer below \<open>2^53\<close>, the number a string denotes when it is not a plain digit string,
  the text of a function that \<open>Object.prototype\<close> supplies, and the order in which a sort
  leaves elements whose keys include \<open>NaN\<close>.
\<close>

datatype num = Fin rat | NaN | PosInf | NegInf

fun num_neg :: "num \<Rightarrow> num" where
  "num_neg (Fin a) = Fin (- a)"
| "num_neg NaN = NaN"
| "num_neg PosInf = NegInf"
| "num_neg NegInf = PosInf"

fun num_add :: "num \<Rightarrow> num \<Rightarrow> num" where
  "num_add (Fin a) (Fin b) = Fin (a + b)"
| "num_add NaN y = NaN"
| "num_add x NaN = NaN"
| "num_add PosInf NegInf = NaN"
| "num_add NegInf PosInf = NaN"
| "num_add PosInf y = PosInf"
| "num_add x PosInf = PosInf"
| "num_add NegInf y = NegInf"
| "num_add x NegInf = NegInf"

definition num_sub :: "num \<Rightarrow> num \<Rightarrow> num" where
  "num_sub x y = num_add x (num_neg y)"

fun num_mul :: "num \<Rightarrow> num \<Rightarrow> num" where
  "num_mul (Fin a) (Fin b) = Fin (a * b)"
| "num_mul NaN y = NaN"
| "num_mul x NaN = NaN"
| "num_mul (Fin a) y = (if a = 0 then NaN else if 0 < a then y else num_neg y)"
| "num_mul x (Fin b) = (if b = 0 then NaN else if 0 < b then x else num_neg x)"
| "num_mul PosInf y = y"
| "num_mul NegInf y = num_neg y"

text \<open>
  The source divides by 1024 and by a total it has just found to be above 0, so the sign
  of a zero divisor, which this model does not have, is never consulted.
\<close>

fun num_div :: "num \<Rightarrow> num \<Rightarrow> num" where
  "num_div (Fin a) (Fin b) =
     (if b \<noteq> 0 then Fin (a / b)
      else if a = 0 then NaN else if 0 < a then PosInf else NegInf)"
| "num_div NaN y = NaN"
| "num_div x NaN = NaN"
| "num_div (Fin a) y = Fin 0"
| "num_div x (Fin b) = (if 0 \<le> b then x else num_neg x)"
| "num_div x y = NaN"

text \<open>\<open>x > y\<close> on numbers: false when either is \<open>NaN\<close>.\<close>

fun num_gt :: "num \<Rightarrow> num \<Rightarrow> bool" where
  "num_gt (Fin a) (Fin b) = (b < a)"
| "num_gt NaN y = False"
| "num_gt x NaN = False"
| "num_gt PosInf PosInf = False"
| "num_gt PosInf y = True"
| "num_gt x PosInf = False"
| "num_gt NegInf y = False"
| "num_gt x NegInf = True"

text \<open>\<open>Math.min(x, y)\<close>.\<close>

definition num_min :: "num \<Rightarrow> num \<Rightarrow> num" where
  "num_min x y = (if x = NaN \<or> y = NaN then NaN else if num_gt x y then y else x)"

text \<open>An evaluation of this section returns or throws.\<close>

datatype 'a outcome = Returned 'a | Thrown

fun bind_out :: "'a outcome \<Rightarrow> ('a \<Rightarrow> 'b outcome) \<Rightarrow> 'b outcome" where
  "bind_out (Returned x) f = f x"
| "bind_out Thrown f = Thrown"

record runtime =
  number_text :: "rat \<Rightarrow> string"
  text_number :: "string \<Rightarrow> num"
  inherited_text :: "string \<Rightarrow> string"
  engine_order :: "num list \<Rightarrow> nat list"

subsection \<open>Conversions\<close>

text \<open>
  \<open>Number::toString\<close>. An integer below \<open>2^53\<close> in absolute value prints its decimal
  digits; the digits of any other finite number are the engine's.
\<close>

fun num_to_text :: "runtime \<Rightarrow> num \<Rightarrow> string" where
  "num_to_text rt (Fin q) =
     (if q = of_int \<lfloor>q\<rfloor> \<and> \<bar>q\<bar> < 2 ^ 53
      then (if q < 0 then ''-'' else '''') @ digits10 (nat \<bar>\<lfloor>q\<rfloor>\<bar>)
      else number_text rt q)"
| "num_to_text rt NaN = ''NaN''"
| "num_to_text rt PosInf = ''Infinity''"
| "num_to_text rt NegInf = ''-Infinity''"

definition digit_val :: "char \<Rightarrow> nat" where
  "digit_val c = length (takeWhile (\<lambda>d. d \<noteq> c) ''0123456789'')"

definition digits_value :: "string \<Rightarrow> int" where
  "digits_value s = foldl (\<lambda>n c. 10 * n + int (digit_val c)) 0 s"

text \<open>
  The number a string denotes (\<open>StringToNumber\<close>): 0 for the empty string, the value of a
  string of decimal digits below \<open>2^53\<close>, and the engine's reading of any other string.
\<close>

definition text_to_num :: "runtime \<Rightarrow> string \<Rightarrow> num" where
  "text_to_num rt s =
     (if s = [] then Fin 0
      else if (\<forall>c \<in> set s. c \<in> set ''0123456789'') \<and> digits_value s < 2 ^ 53
      then Fin (of_int (digits_value s))
      else text_number rt s)"

fun join_comma :: "string list \<Rightarrow> string" where
  "join_comma [] = []"
| "join_comma [s] = s"
| "join_comma (s # t # ts) = s @ '','' @ join_comma (t # ts)"

text \<open>
  The string of a value (\<open>ToString\<close>, and the method \<open>toString\<close>): an array joins the
  strings of its elements with commas, \<open>null\<close> and \<open>undefined\<close> elements giving the empty
  string; an object with a property \<open>toString\<close> of its own, which is never callable,
  throws, and any other object is \<open>[object Object]\<close>.
\<close>

fun text_of :: "runtime \<Rightarrow> jv \<Rightarrow> string outcome"
  and texts_of :: "runtime \<Rightarrow> jv list \<Rightarrow> string list outcome" where
  "text_of rt JUndef = Returned ''undefined''"
| "text_of rt JNull = Returned ''null''"
| "text_of rt (JBool b) = Returned (if b then ''true'' else ''false'')"
| "text_of rt (JNum q) = Returned (num_to_text rt (Fin q))"
| "text_of rt (JStr s) = Returned s"
| "text_of rt (JArr xs) = bind_out (texts_of rt xs) (\<lambda>ss. Returned (join_comma ss))"
| "text_of rt (JObj fs) =
     (if map_of fs ''toString'' \<noteq> None then Thrown else Returned ''[object Object]'')"
| "texts_of rt [] = Returned []"
| "texts_of rt (x # xs) =
     bind_out (if nullish x then Returned [] else text_of rt x) (\<lambda>s.
     bind_out (texts_of rt xs) (\<lambda>ss. Returned (s # ss)))"

text \<open>\<open>v?.toString()\<close>.\<close>

definition opt_text_of :: "runtime \<Rightarrow> jv \<Rightarrow> jv outcome" where
  "opt_text_of rt v =
     (if nullish v then Returned JUndef else bind_out (text_of rt v) (\<lambda>s. Returned (JStr s)))"

text \<open>
  The primitive of a value (\<open>ToPrimitive\<close>): an array or an object gives its string, with
  either hint, since \<open>valueOf\<close> answers with the object itself.
\<close>

datatype prim = PUndef | PNull | PBool bool | PNum num | PStr string

fun prim_of :: "runtime \<Rightarrow> jv \<Rightarrow> prim outcome" where
  "prim_of rt JUndef = Returned PUndef"
| "prim_of rt JNull = Returned PNull"
| "prim_of rt (JBool b) = Returned (PBool b)"
| "prim_of rt (JNum q) = Returned (PNum (Fin q))"
| "prim_of rt (JStr s) = Returned (PStr s)"
| "prim_of rt v = bind_out (text_of rt v) (\<lambda>s. Returned (PStr s))"

fun prim_text :: "runtime \<Rightarrow> prim \<Rightarrow> string" where
  "prim_text rt PUndef = ''undefined''"
| "prim_text rt PNull = ''null''"
| "prim_text rt (PBool b) = (if b then ''true'' else ''false'')"
| "prim_text rt (PNum n) = num_to_text rt n"
| "prim_text rt (PStr s) = s"

text \<open>\<open>ToNumber\<close> of a primitive.\<close>

fun prim_num :: "runtime \<Rightarrow> prim \<Rightarrow> num" where
  "prim_num rt PUndef = NaN"
| "prim_num rt PNull = Fin 0"
| "prim_num rt (PBool b) = (if b then Fin 1 else Fin 0)"
| "prim_num rt (PNum n) = n"
| "prim_num rt (PStr s) = text_to_num rt s"

text \<open>\<open>ToNumber\<close> of a value.\<close>

definition to_num :: "runtime \<Rightarrow> jv \<Rightarrow> num outcome" where
  "to_num rt v = bind_out (prim_of rt v) (\<lambda>p. Returned (prim_num rt p))"

text \<open>A total of the source: a number, or a string once \<open>+\<close> has concatenated.\<close>

datatype acc = NumV num | StrV string

fun acc_num :: "runtime \<Rightarrow> acc \<Rightarrow> num" where
  "acc_num rt (NumV n) = n"
| "acc_num rt (StrV s) = text_to_num rt s"

fun acc_truthy :: "acc \<Rightarrow> bool" where
  "acc_truthy (NumV n) = (n \<noteq> NaN \<and> n \<noteq> Fin 0)"
| "acc_truthy (StrV s) = (s \<noteq> [])"

text \<open>
  \<open>a + p\<close> on primitives: string concatenation when either is a string, the sum of the
  numbers otherwise.
\<close>

fun plus_prim :: "runtime \<Rightarrow> acc \<Rightarrow> prim \<Rightarrow> acc" where
  "plus_prim rt (StrV s) p = StrV (s @ prim_text rt p)"
| "plus_prim rt (NumV n) (PStr t) = StrV (num_to_text rt n @ t)"
| "plus_prim rt (NumV n) p = NumV (num_add n (prim_num rt p))"

text \<open>\<open>a + (x || 0)\<close> for a total \<open>a\<close>.\<close>

definition plus_or_zero :: "runtime \<Rightarrow> acc \<Rightarrow> jv \<Rightarrow> acc outcome" where
  "plus_or_zero rt a x =
     bind_out (prim_of rt (or_js x (JNum 0))) (\<lambda>p. Returned (plus_prim rt a p))"

text \<open>\<open>x > 0\<close>.\<close>

definition above_zero :: "runtime \<Rightarrow> jv \<Rightarrow> bool outcome" where
  "above_zero rt x = bind_out (to_num rt x) (\<lambda>n. Returned (num_gt n (Fin 0)))"

text \<open>\<open>v.k\<close>.\<close>

definition prop_of :: "jv \<Rightarrow> string \<Rightarrow> jv outcome" where
  "prop_of v k = (if nullish v then Thrown else Returned (get_field v k))"

text \<open>\<open>h.includes(v)\<close> for a truthy \<open>h\<close>.\<close>

fun includes_any :: "runtime \<Rightarrow> jv \<Rightarrow> jv \<Rightarrow> bool outcome" where
  "includes_any rt (JArr xs) v = Returned (\<exists>x \<in> set xs. same_value_zero v x)"
| "includes_any rt (JStr s) v = bind_out (text_of rt v) (\<lambda>p. Returned (includes_str s p))"
| "includes_any rt h v = Thrown"

text \<open>
  The sort with a comparator \<open>key(b) - key(a)\<close>. A difference that is \<open>NaN\<close> counts as 0,
  so keys without \<open>NaN\<close> are compared consistently (equal infinities tie) and the stable
  sort of ECMAScript is an insertion sort; with a \<open>NaN\<close> key the order is the engine's.
\<close>

fun insert_desc :: "num \<times> 'a \<Rightarrow> (num \<times> 'a) list \<Rightarrow> (num \<times> 'a) list" where
  "insert_desc x [] = [x]"
| "insert_desc x (y # ys) =
     (if num_gt (fst y) (fst x) then y # insert_desc x ys else x # y # ys)"

definition sort_any :: "runtime \<Rightarrow> (num \<times> 'a) list \<Rightarrow> (num \<times> 'a) list" where
  "sort_any rt ps =
     (if \<forall>p \<in> set ps. fst p \<noteq> NaN then foldr insert_desc ps []
      else map (\<lambda>i. ps ! i) (filter (\<lambda>i. i < length ps) (engine_order rt (map fst ps))))"

fun map_out :: "('a \<Rightarrow> 'b outcome) \<Rightarrow> 'a list \<Rightarrow> 'b list outcome" where
  "map_out f [] = Returned []"
| "map_out f (x # xs) = bind_out (f x) (\<lambda>y. bind_out (map_out f xs) (\<lambda>ys. Returned (y # ys)))"

fun filter_out :: "('a \<Rightarrow> bool outcome) \<Rightarrow> 'a list \<Rightarrow> 'a list outcome" where
  "filter_out p [] = Returned []"
| "filter_out p (x # xs) =
     bind_out (p x) (\<lambda>keep.
     bind_out (filter_out p xs) (\<lambda>ys. Returned (if keep then x # ys else ys)))"

subsection \<open>The chunk size resolver on every chunk\<close>

fun sum_module_sizes_any :: "runtime \<Rightarrow> jv list \<Rightarrow> acc \<Rightarrow> acc outcome" where
  "sum_module_sizes_any rt [] tot = Returned tot"
| "sum_module_sizes_any rt (m # ms) tot =
     bind_out (plus_or_zero rt tot (get_field m ''size'')) (\<lambda>t. sum_module_sizes_any rt ms t)"

definition isChunkAsset_any :: "runtime \<Rightarrow> jv \<Rightarrow> jv \<Rightarrow> jv \<Rightarrow> bool outcome" where
  "isChunkAsset_any rt chunkId chunkName asset =
     bind_out
       (if truthy chunkId \<and> truthy (get_field asset ''chunks'')
        then includes_any rt (get_field asset ''chunks'') chunkId else Returned False)
       (\<lambda>byId.
          if byId then Returned True
          else if truthy chunkName \<and> truthy (get_field asset ''name'')
          then includes_any rt (get_field asset ''name'') chunkName else Returned False)"

fun sum_chunk_assets_any :: "runtime \<Rightarrow> jv \<Rightarrow> jv \<Rightarrow> jv list \<Rightarrow> acc \<Rightarrow> acc outcome" where
  "sum_chunk_assets_any rt chunkId chunkName [] tot = Returned tot"
| "sum_chunk_assets_any rt chunkId chunkName (asset # assets) tot =
     (if \<not> truthy asset then sum_chunk_assets_any rt chunkId chunkName assets tot
      else bind_out (isChunkAsset_any rt chunkId chunkName asset) (\<lambda>hit.
           bind_out (if hit then plus_or_zero rt tot (get_field asset ''size'')
                     else plus_or_zero rt tot (JNum 0)) (\<lambda>t.
           sum_chunk_assets_any rt chunkId chunkName assets t)))"

definition calculateChunkSize_any :: "runtime \<Rightarrow> jv \<Rightarrow> jv \<Rightarrow> acc outcome" where
  "calculateChunkSize_any rt chunk stats =
     (if \<not> truthy chunk then Returned (NumV (Fin 0))
      else case get_field chunk ''size'' of
        JNum n \<Rightarrow> Returned (NumV (Fin n))
      | _ \<Rightarrow>
        if isArray (get_field chunk ''modules'')
        then sum_module_sizes_any rt (elements (get_field chunk ''modules'')) (NumV (Fin 0))
        else
          bind_out (prop_of stats ''assets'') (\<lambda>assets.
            if isArray assets \<and>
               (get_field chunk ''id'' \<noteq> JUndef \<or> get_field chunk ''name'' \<noteq> JUndef)
            then
              bind_out (opt_text_of rt (get_field chunk ''id'')) (\<lambda>chunkId.
                sum_chunk_assets_any rt chunkId
                  (or_js (first_elem (get_field chunk ''names'')) (get_field chunk ''name''))
                  (elements assets) (NumV (Fin 0)))
            else Returned (NumV (Fin 0))))"

subsection \<open>The report object\<close>

record entrypoint_any =
  ea_size :: acc
  ea_chunks :: jv

record module_any =
  ma_name :: jv
  ma_size :: jv
  ma_type :: string

record chunk_any =
  ca_id :: string
  ca_name :: jv
  ca_size :: acc
  ca_modules :: nat

record performance_any =
  initialLoad_any :: num
  cacheEfficiency_any :: num
  chunkFragmentation_any :: rat

record metrics_any =
  totalSize_any :: acc
  totalSizeByType_any :: "(string \<times> acc) list"
  entrypoints_any :: "(string \<times> entrypoint_any) list"
  largestModules_any :: "module_any list"
  largestChunks_any :: "chunk_any list"
  moduleCount_any :: nat
  chunkCount_any :: nat
  assetCount_any :: nat
  buildTime_any :: jv
  performance_any :: performance_any

text \<open>What \<open>extractMetrics\<close> returns: the metrics object, or the object of its handler.\<close>

datatype report_any = MetricsObject metrics_any | ErrorObject string

definition initial_metrics_any :: "jv \<Rightarrow> metrics_any" where
  "initial_metrics_any t =
     \<lparr>totalSize_any = NumV (Fin 0), totalSizeByType_any = [], entrypoints_any = [],
      largestModules_any = [], largestChunks_any = [], moduleCount_any = 0,
      chunkCount_any = 0, assetCount_any = 0, buildTime_any = t,
      performance_any =
        \<lparr>initialLoad_any = Fin 0, cacheEfficiency_any = Fin 0, chunkFragmentation_any = 0\<rparr>\<rparr>"

subsection \<open>The passes on every document\<close>

text \<open>\<open>path.extname(x)\<close> and the classifier, as evaluations that return or throw.\<close>

fun extname_any :: "jv \<Rightarrow> string outcome" where
  "extname_any (JStr s) = Returned (extname s)"
| "extname_any v = Thrown"

fun getModuleType_any :: "jv \<Rightarrow> string outcome" where
  "getModuleType_any (JStr s) = Returned (getModuleType s)"
| "getModuleType_any v = (if truthy v then Thrown else Returned ''unknown'')"

text \<open>
  \<open>metrics.totalSizeByType[ext] || 0\<close>: an own total when it is truthy; for a name that
  \<open>Object.prototype\<close> supplies and the object does not have itself, the inherited function
  or, for \<open>__proto__\<close>, the prototype, which \<open>+\<close> turns into its text; 0 otherwise.
\<close>

definition type_total :: "runtime \<Rightarrow> (string \<times> acc) list \<Rightarrow> string \<Rightarrow> acc" where
  "type_total rt byType ext =
     (case map_of byType ext of
        Some a \<Rightarrow> (if acc_truthy a then a else NumV (Fin 0))
      | None \<Rightarrow>
          (if ext = ''__proto__'' then StrV ''[object Object]''
           else if ext \<in> set object_prototype_names then StrV (inherited_text rt ext)
           else NumV (Fin 0)))"

text \<open>
  The body of \<open>stats.assets.forEach\<close>. Assigning a number or a string to the key
  \<open>__proto__\<close> changes nothing.
\<close>

fun assets_loop_any :: "runtime \<Rightarrow> jv list \<Rightarrow> metrics_any \<Rightarrow> metrics_any outcome" where
  "assets_loop_any rt [] m = Returned m"
| "assets_loop_any rt (asset # assets) m =
     (if \<not> truthy asset then assets_loop_any rt assets m
      else
        bind_out (plus_or_zero rt (totalSize_any m) (get_field asset ''size'')) (\<lambda>tot.
        bind_out (extname_any (or_js (get_field asset ''name'') (JStr []))) (\<lambda>e.
        bind_out (plus_or_zero rt (type_total rt (totalSizeByType_any m) (file_type e))
                    (get_field asset ''size'')) (\<lambda>t.
          assets_loop_any rt assets
            (m\<lparr>totalSize_any := tot,
               totalSizeByType_any :=
                 (if file_type e = ''__proto__'' then totalSizeByType_any m
                  else set_own (totalSizeByType_any m) (file_type e) t)\<rparr>)))))"

definition assets_pass_any :: "runtime \<Rightarrow> jv \<Rightarrow> metrics_any \<Rightarrow> metrics_any outcome" where
  "assets_pass_any rt stats m =
     (if isArray (get_field stats ''assets'')
      then assets_loop_any rt (elements (get_field stats ''assets''))
             (m\<lparr>assetCount_any := length (elements (get_field stats ''assets''))\<rparr>)
      else Returned m)"

fun sum_entry_assets_any :: "runtime \<Rightarrow> jv list \<Rightarrow> acc \<Rightarrow> acc outcome" where
  "sum_entry_assets_any rt [] entrypointSize = Returned entrypointSize"
| "sum_entry_assets_any rt (asset # assets) entrypointSize =
     (if is_object asset
      then bind_out (plus_or_zero rt entrypointSize (get_field asset ''size'')) (\<lambda>t.
             sum_entry_assets_any rt assets t)
      else sum_entry_assets_any rt assets entrypointSize)"

fun entrypoints_loop_any ::
  "runtime \<Rightarrow> (string \<times> jv) list \<Rightarrow> metrics_any \<Rightarrow> metrics_any outcome" where
  "entrypoints_loop_any rt [] m = Returned m"
| "entrypoints_loop_any rt ((name, entrypoint) # rest) m =
     (if \<not> truthy entrypoint then entrypoints_loop_any rt rest m
      else
        bind_out
          (if isArray (get_field entrypoint ''assets'')
           then sum_entry_assets_any rt (elements (get_field entrypoint ''assets'')) (NumV (Fin 0))
           else Returned (NumV (Fin 0)))
          (\<lambda>entrypointSize.
             entrypoints_loop_any rt rest
               (m\<lparr>entrypoints_any :=
                    (if name = ''__proto__'' then entrypoints_any m
                     else set_own (entrypoints_any m) name
                            \<lparr>ea_size = entrypointSize,
                             ea_chunks = or_js (get_field entrypoint ''chunks'') (JArr [])\<rparr>),
                  performance_any :=
                    (if name = ''main'' \<or> name = ''index''
                     then (performance_any m)
                            \<lparr>initialLoad_any := num_div (acc_num rt entrypointSize) (Fin 1024)\<rparr>
                     else performance_any m)\<rparr>)))"

definition entrypoints_pass_any :: "runtime \<Rightarrow> jv \<Rightarrow> metrics_any \<Rightarrow> metrics_any outcome" where
  "entrypoints_pass_any rt stats m =
     (if truthy (get_field stats ''entrypoints'')
      then entrypoints_loop_any rt (entries_of (get_field stats ''entrypoints'')) m
      else Returned m)"

text \<open>\<open>module && module.size > 0\<close>.\<close>

definition valid_module_any :: "runtime \<Rightarrow> jv \<Rightarrow> bool outcome" where
  "valid_module_any rt mdl =
     (if truthy mdl then above_zero rt (get_field mdl ''size'') else Returned False)"

text \<open>
  The key of the comparator, the number that \<open>-\<close> makes of \<open>module.size || 0\<close>, paired
  with its module.
\<close>

definition module_key_any :: "runtime \<Rightarrow> jv \<Rightarrow> (num \<times> jv) outcome" where
  "module_key_any rt mdl =
     bind_out (to_num rt (or_js (get_field mdl ''size'') (JNum 0))) (\<lambda>k. Returned (k, mdl))"

definition module_entry_any :: "num \<times> jv \<Rightarrow> module_any outcome" where
  "module_entry_any p =
     bind_out (getModuleType_any (or_js (get_field (snd p) ''name'') (JStr []))) (\<lambda>t.
       Returned \<lparr>ma_name = or_js (get_field (snd p) ''name'') (JStr ''unknown''),
                 ma_size = or_js (get_field (snd p) ''size'') (JNum 0), ma_type = t\<rparr>)"

definition modules_pass_any :: "runtime \<Rightarrow> jv \<Rightarrow> metrics_any \<Rightarrow> metrics_any outcome" where
  "modules_pass_any rt stats m =
     (if isArray (get_field stats ''modules'')
      then
        bind_out (filter_out (valid_module_any rt) (elements (get_field stats ''modules'')))
          (\<lambda>valid.
        bind_out (map_out (module_key_any rt) valid) (\<lambda>keyed.
        bind_out (map_out module_entry_any (take 20 (sort_any rt keyed))) (\<lambda>largest.
          Returned (m\<lparr>moduleCount_any := length valid, largestModules_any := largest\<rparr>))))
      else Returned m)"

definition chunk_key_any :: "runtime \<Rightarrow> jv \<Rightarrow> jv \<Rightarrow> ((num \<times> acc) \<times> jv) outcome" where
  "chunk_key_any rt stats chunk =
     bind_out (calculateChunkSize_any rt chunk stats) (\<lambda>a. Returned ((acc_num rt a, a), chunk))"

definition chunk_entry_any :: "runtime \<Rightarrow> (num \<times> acc) \<times> jv \<Rightarrow> chunk_any outcome" where
  "chunk_entry_any rt p =
     bind_out (opt_text_of rt (get_field (snd p) ''id'')) (\<lambda>i.
       Returned
         \<lparr>ca_id = (case i of JStr s \<Rightarrow> (if s = [] then ''unknown'' else s) | _ \<Rightarrow> ''unknown''),
          ca_name = or_js (first_elem (get_field (snd p) ''names''))
                      (or_js (get_field (snd p) ''name'') (JStr ''unnamed chunk'')),
          ca_size = snd (fst p),
          ca_modules = (if isArray (get_field (snd p) ''modules'')
                        then length (elements (get_field (snd p) ''modules'')) else 0)\<rparr>)"

text \<open>
  The sorted chunks. The key of a chunk is the number that \<open>-\<close> makes of its resolved
  size; the resolved size itself, which the \<open>map\<close> after the sort puts in the report, is
  carried along.
\<close>

definition sort_chunks_any ::
  "runtime \<Rightarrow> ((num \<times> acc) \<times> jv) list \<Rightarrow> ((num \<times> acc) \<times> jv) list" where
  "sort_chunks_any rt keyed =
     map snd (sort_any rt (map (\<lambda>p. (fst (fst p), p)) keyed))"

definition chunks_pass_any :: "runtime \<Rightarrow> jv \<Rightarrow> metrics_any \<Rightarrow> metrics_any outcome" where
  "chunks_pass_any rt stats m =
     (if isArray (get_field stats ''chunks'')
      then
        bind_out (map_out (chunk_key_any rt stats) (valid_chunks stats)) (\<lambda>keyed.
        bind_out (map_out (chunk_entry_any rt) (take 10 (sort_chunks_any rt keyed))) (\<lambda>largest.
          Returned
            (m\<lparr>chunkCount_any := length (valid_chunks stats), largestChunks_any := largest,
               performance_any :=
                 (if 0 < length (valid_chunks stats)
                  then (performance_any m)
                         \<lparr>chunkFragmentation_any :=
                            min (of_nat (length (valid_chunks stats)) /
                                 of_nat (max (length (entrypoints_any m)) 1)) 100\<rparr>
                  else performance_any m)\<rparr>)))
      else Returned m)"

text \<open>\<open>metrics.entrypoints?.[name]?.size\<close>, falsy when it is \<open>undefined\<close>.\<close>

definition entry_size_any :: "metrics_any \<Rightarrow> string \<Rightarrow> acc option" where
  "entry_size_any m name = map_option ea_size (map_of (entrypoints_any m) name)"

definition truthy_size :: "acc option \<Rightarrow> bool" where
  "truthy_size a = (case a of Some x \<Rightarrow> acc_truthy x | None \<Rightarrow> False)"

text \<open>\<open>main?.size || index?.size || 0\<close>.\<close>

definition mainBundleSize_any :: "metrics_any \<Rightarrow> acc" where
  "mainBundleSize_any m =
     (if truthy_size (entry_size_any m ''main'') then the (entry_size_any m ''main'')
      else if truthy_size (entry_size_any m ''index'') then the (entry_size_any m ''index'')
      else NumV (Fin 0))"

definition cache_pass_any :: "runtime \<Rightarrow> metrics_any \<Rightarrow> metrics_any" where
  "cache_pass_any rt m =
     (if num_gt (acc_num rt (totalSize_any m)) (Fin 0) \<and> 1 < chunkCount_any m
      then m\<lparr>performance_any :=
               (performance_any m)
                 \<lparr>cacheEfficiency_any :=
                    num_min
                      (num_mul
                         (num_div
                            (num_sub (acc_num rt (totalSize_any m))
                               (acc_num rt (mainBundleSize_any m)))
                            (acc_num rt (totalSize_any m)))
                         (Fin 100))
                      (Fin 100)\<rparr>\<rparr>
      else m)"

definition extract_body_any :: "runtime \<Rightarrow> jv \<Rightarrow> metrics_any outcome" where
  "extract_body_any rt stats =
     bind_out (prop_of stats ''time'') (\<lambda>t.
     bind_out (assets_pass_any rt stats (initial_metrics_any (or_js t (JNum 0)))) (\<lambda>m1.
     bind_out (entrypoints_pass_any rt stats m1) (\<lambda>m2.
     bind_out (modules_pass_any rt stats m2) (\<lambda>m3.
     bind_out (chunks_pass_any rt stats m3) (\<lambda>m4.
     Returned (cache_pass_any rt m4))))))"

text \<open>The \<open>try\<close> and its handler.\<close>

definition extractMetrics_any :: "runtime \<Rightarrow> jv \<Rightarrow> report_any" where
  "extractMetrics_any rt stats =
     (case extract_body_any rt stats of
        Returned m \<Rightarrow> MetricsObject m
      | Thrown \<Rightarrow> ErrorObject ''Failed to extract metrics'')"

subsection \<open>Metrics reports among the report objects\<close>

text \<open>
  A Metrics Report, whose sizes are numbers, as a report object.
\<close>

definition embed_entrypoint :: "entrypoint_info \<Rightarrow> entrypoint_any" where
  "embed_entrypoint e = \<lparr>ea_size = NumV (Fin (ep_size e)), ea_chunks = ep_chunks e\<rparr>"

definition embed_module :: "module_info \<Rightarrow> module_any" where
  "embed_module e = \<lparr>ma_name = lm_name e, ma_size = JNum (lm_size e), ma_type = lm_type e\<rparr>"

definition embed_chunk :: "chunk_info \<Rightarrow> chunk_any" where
  "embed_chunk e =
     \<lparr>ca_id = lc_id e, ca_name = lc_name e, ca_size = NumV (Fin (lc_size e)),
      ca_modules = lc_modules e\<rparr>"

definition embed_performance :: "performance_info \<Rightarrow> performance_any" where
  "embed_performance p =
     \<lparr>initialLoad_any = Fin (initialLoad p), cacheEfficiency_any = Fin (cacheEfficiency p),
      chunkFragmentation_any = chunkFragmentation p\<rparr>"

definition embed_metrics :: "metrics \<Rightarrow> metrics_any" where
  "embed_metrics m =
     \<lparr>totalSize_any = NumV (Fin (totalSize m)),
      totalSizeByType_any = map (\<lambda>p. (fst p, NumV (Fin (snd p)))) (totalSizeByType m),
      entrypoints_any = map (\<lambda>p. (fst p, embed_entrypoint (snd p))) (entrypoints m),
      largestModules_any = map embed_module (largestModules m),
      largestChunks_any = map embed_chunk (largestChunks m),
      moduleCount_any = moduleCount m, chunkCount_any = chunkCount m,
      assetCount_any = assetCount m, buildTime_any = buildTime m,
      performance_any = embed_performance (performance m)\<rparr>"

fun embed_report :: "report \<Rightarrow> report_any" where
  "embed_report (Metrics m) = MetricsObject (embed_metrics m)"
| "embed_report (ErrorReport s) = ErrorObject s"

section \<open>Notions used to state the properties\<close>







subsection \<open>Documents inside the modelled fragment\<close>

text \<open>
  A size the arithmetic of the source takes as it is: a number, or a falsy value, which
  \<open>|| 0\<close> replaces.
\<close>

definition size_ok :: "jv \<Rightarrow> bool" where
  "size_ok v = (is_number v \<or> \<not> truthy v)"

text \<open>A value whose string \<open>to_str\<close> computes.\<close>

fun printable :: "jv \<Rightarrow> bool" where
  "printable (JNum n) = (n = of_int \<lfloor>n\<rfloor> \<and> \<bar>n\<bar> < 2 ^ 53)"
| "printable (JArr xs) = False"
| "printable v = True"

text \<open>An asset name whose extension is not the name of a property of \<open>Object.prototype\<close>.\<close>

fun own_file_type :: "jv \<Rightarrow> bool" where
  "own_file_type (JStr s) = (file_type (extname s) \<notin> set object_prototype_names)"
| "own_file_type v = True"

definition supported_asset :: "jv \<Rightarrow> bool" where
  "supported_asset a =
     (size_ok (get_field a ''size'') \<and> own_file_type (or_js (get_field a ''name'') (JStr [])))"

definition supported_chunk :: "jv \<Rightarrow> bool" where
  "supported_chunk c =
     ((\<forall>m \<in> set (elements (get_field c ''modules'')). size_ok (get_field m ''size'')) \<and>
      printable (get_field c ''id'') \<and>
      printable (or_js (first_elem (get_field c ''names'')) (get_field c ''name'')))"

text \<open>
  The documents on which no evaluation is \<open>Unmodelled\<close>. Nothing is asked of the shape of
  the document itself, of its sections or of their entries: \<open>null\<close>, a number, a string, and
  objects with missing, \<open>null\<close> or wrongly typed sections are all supported.
\<close>

definition supported :: "jv \<Rightarrow> bool" where
  "supported stats =
     ((\<forall>a \<in> set (elements (get_field stats ''assets'')). supported_asset a) \<and>
      (\<forall>e \<in> set (entries_of (get_field stats ''entrypoints'')).
         \<forall>a \<in> set (elements (get_field (snd e) ''assets'')). size_ok (get_field a ''size'')) \<and>
      (\<forall>m \<in> set (elements (get_field stats ''modules'')). size_ok (get_field m ''size'')) \<and>
      (\<forall>c \<in> set (elements (get_field stats ''chunks'')). supported_chunk c))"

subsection \<open>Reports whose totals and sizes are numbers\<close>

text \<open>A total that is a finite number, not a string.\<close>

fun finite_number :: "acc \<Rightarrow> bool" where
  "finite_number (NumV (Fin q)) = True"
| "finite_number a = False"

fun finite_num :: "num \<Rightarrow> bool" where
  "finite_num (Fin q) = True"
| "finite_num n = False"

text \<open>
  The totals and sizes of a report object are numbers, as the specification has them in a
  Metrics Report.
\<close>

definition numeric_report :: "metrics_any \<Rightarrow> bool" where
  "numeric_report m =
     (finite_number (totalSize_any m) \<and>
      (\<forall>p \<in> set (totalSizeByType_any m). finite_number (snd p)) \<and>
      (\<forall>p \<in> set (entrypoints_any m). finite_number (ea_size (snd p))) \<and>
      (\<forall>e \<in> set (largestModules_any m). is_number (ma_size e)) \<and>
      (\<forall>c \<in> set (largestChunks_any m). finite_number (ca_size c)) \<and>
      finite_num (initialLoad_any (performance_any m)) \<and>
      finite_num (cacheEfficiency_any (performance_any m)))"

text \<open>
  The documents whose sizes the arithmetic of the source takes as they are: every size it
  adds is a number or falsy, and no asset extension names a property of
  \<open>Object.prototype\<close>. Nothing is asked of identifiers, names or the shape of the
  document.
\<close>

definition numeric_sizes :: "jv \<Rightarrow> bool" where
  "numeric_sizes stats =
     ((\<forall>a \<in> set (elements (get_field stats ''assets'')). supported_asset a) \<and>
      (\<forall>e \<in> set (entries_of (get_field stats ''entrypoints'')).
         \<forall>a \<in> set (elements (get_field (snd e) ''assets'')). size_ok (get_field a ''size'')) \<and>
      (\<forall>m \<in> set (elements (get_field stats ''modules'')). size_ok (get_field m ''size'')) \<and>
      (\<forall>c \<in> set (elements (get_field stats ''chunks'')).
         \<forall>m \<in> set (elements (get_field c ''modules'')). size_ok (get_field m ''size'')))"

text \<open>
  An evaluation of the first kind and one of the second agree: the same value, up to the
  embedding \<open>e\<close>, or a throw in both. Nothing is asked where the first abstains.
\<close>

definition agrees :: "('a \<Rightarrow> 'b) \<Rightarrow> 'a res \<Rightarrow> 'b outcome \<Rightarrow> bool" where
  "agrees e r out =
     (case r of Ok x \<Rightarrow> out = Returned (e x) | Throws \<Rightarrow> out = Thrown | Unmodelled \<Rightarrow> True)"

section \<open>The arrays of the document as mutable objects\<close>

text \<open>
  The functions above take the document as a value. In the program its arrays are objects
  that \<open>Array.prototype.sort\<close> could reorder in place. Here the arrays live in a store, an
  array being its index in the store: the spread \<open>[...a]\<close>, \<open>filter\<close> and \<open>slice\<close> allocate
  a new array, and \<open>sort\<close> writes the array it is called on. Every other operation of
  \<open>extractMetrics\<close> on the document is a read (\<open>forEach\<close>, \<open>reduce\<close>, \<open>includes\<close>,
  \<open>Object.entries\<close>, property reads), and every assignment goes to \<open>metrics\<close>, an object
  the function creates.
\<close>

type_synonym store = "jv list list"

definition alloc :: "jv list \<Rightarrow> store \<Rightarrow> nat \<times> store" where
  "alloc xs st = (length st, st @ [xs])"

text \<open>\<open>[...a]\<close>.\<close>

definition spread_st :: "nat \<Rightarrow> store \<Rightarrow> nat \<times> store" where
  "spread_st a st = alloc (st ! a) st"

text \<open>\<open>a.filter(p)\<close>.\<close>

definition filter_st :: "(jv \<Rightarrow> bool) \<Rightarrow> nat \<Rightarrow> store \<Rightarrow> nat \<times> store" where
  "filter_st p a st = alloc (filter p (st ! a)) st"

text \<open>\<open>a.sort((x, y) => key(y) - key(x))\<close>: sorts \<open>a\<close> itself and returns it.\<close>

definition sort_st :: "(jv \<Rightarrow> rat) \<Rightarrow> nat \<Rightarrow> store \<Rightarrow> nat \<times> store" where
  "sort_st key a st = (a, st[a := sort_key (\<lambda>x. - key x) (st ! a)])"

text \<open>\<open>a.slice(0, n)\<close>.\<close>

definition slice_st :: "nat \<Rightarrow> nat \<Rightarrow> store \<Rightarrow> nat \<times> store" where
  "slice_st n a st = alloc (take n (st ! a)) st"

text \<open>\<open>[...a].filter(p).sort(cmp).slice(0, n)\<close>.\<close>

definition sorted_copy ::
  "(jv \<Rightarrow> bool) \<Rightarrow> (jv \<Rightarrow> rat) \<Rightarrow> nat \<Rightarrow> nat \<Rightarrow> store \<Rightarrow> nat \<times> store" where
  "sorted_copy p key n a st =
     (let (a1, st1) = spread_st a st;
          (a2, st2) = filter_st p a1 st1;
          (a3, st3) = sort_st key a2 st2
      in slice_st n a3 st3)"

text \<open>
  One section of the document, when it is an array: \<open>a.filter(p).length\<close> for the count,
  then the sorted copy.
\<close>

definition counted_and_sorted ::
  "(jv \<Rightarrow> bool) \<Rightarrow> (jv \<Rightarrow> rat) \<Rightarrow> nat \<Rightarrow> nat option \<Rightarrow> store \<Rightarrow> store" where
  "counted_and_sorted p key n arr st =
     (case arr of
        None \<Rightarrow> st
      | Some a \<Rightarrow> snd (sorted_copy p key n a (snd (filter_st p a st))))"

text \<open>The key a comparator computes, where it computes one.\<close>

definition key_of :: "rat res \<Rightarrow> rat" where
  "key_of r = (case r of Ok k \<Rightarrow> k | _ \<Rightarrow> 0)"

text \<open>
  The store after \<open>extractMetrics(stats)\<close>, where \<open>modules\<close> and \<open>chunks\<close> are the arrays
  \<open>stats.modules\<close> and \<open>stats.chunks\<close>, or \<open>None\<close> for a section that is not an array. A
  throw ends the run after some of these steps.
\<close>

definition extract_store :: "jv \<Rightarrow> nat option \<Rightarrow> nat option \<Rightarrow> store \<Rightarrow> store" where
  "extract_store stats modules chunks st =
     counted_and_sorted truthy (\<lambda>c. key_of (calculateChunkSize c stats)) 10 chunks
       (counted_and_sorted (\<lambda>m. valid_module m = Ok True)
          (\<lambda>m. key_of (num_or_zero (get_field m ''size''))) 20 modules st)"

text \<open>Every array of \<open>st\<close> is in \<open>st'\<close> with the same elements in the same order.\<close>

definition same_arrays :: "store \<Rightarrow> store \<Rightarrow> bool" where
  "same_arrays st st' = (length st \<le> length st' \<and> (\<forall>b < length st. st' ! b = st ! b))"

section \<open>Example documents\<close>

text \<open>The scenario of the specification: two assets, one entrypoint, one chunk.\<close>

definition doc_scenario :: jv where
  "doc_scenario = JObj
     [(''assets'', JArr [JObj [(''name'', JStr ''main.js''), (''size'', JNum 1000)],
                         JObj [(''name'', JStr ''main.css''), (''size'', JNum 200)]]),
      (''entrypoints'', JObj [(''main'', JObj [(''assets'', JArr [JObj [(''size'', JNum 1000)]]),
                                               (''chunks'', JArr [JStr ''0''])])]),
      (''chunks'', JArr [JObj [(''id'', JStr ''0''), (''size'', JNum 1000), (''modules'', JArr [])]]),
      (''time'', JNum 543)]"



text \<open>Sections with \<open>null\<close> entries, a module of size 0 and chunks resolved in three ways.\<close>

definition doc_mixed :: jv where
  "doc_mixed = JObj
     [(''assets'', JArr [JObj [(''name'', JStr ''main.js''), (''size'', JNum 50)], JNull]),
      (''modules'', JArr [JObj [(''name'', JStr ''a.js''), (''size'', JNum 5)], JNull,
                          JObj [(''name'', JStr ''node_modules/x/y.ts''), (''size'', JNum 9)],
                          JObj [(''size'', JNum 7)], JObj [(''size'', JNum 0)]]),
      (''chunks'', JArr [JObj [(''id'', JNum 1), (''size'', JNum 10)], JNull,
                         JObj [(''id'', JNum 2),
                               (''modules'', JArr [JObj [(''size'', JNum 3)],
                                                   JObj [(''size'', JNum 4)]])],
                         JObj [(''id'', JNum 3), (''names'', JArr [JStr ''main''])]])]"




text \<open>An asset whose size is a string: \<open>+\<close> concatenates.\<close>

definition doc_string_size :: jv where
  "doc_string_size = JObj [(''assets'', JArr [JObj [(''name'', JStr ''a.js''), (''size'', JStr ''5'')]])]"

text \<open>A chunk whose identifier is not an integer.\<close>

definition doc_fraction_id :: jv where
  "doc_fraction_id = JObj [(''chunks'', JArr [JObj [(''id'', JNum (3 / 2)), (''size'', JNum 10)]])]"

text \<open>An asset whose name is a number: \<open>path.extname\<close> throws.\<close>

definition doc_bad_name :: jv where
  "doc_bad_name = JObj [(''assets'', JArr [JObj [(''name'', JNum 5), (''size'', JNum 1)]])]"

text \<open>
  A chunk with an explicit size of 500, modules that sum to 900, and a name that the two
  assets of \<open>doc_scenario\<close>, of sizes 1000 and 200, contain.
\<close>

definition chunk_explicit :: jv where
  "chunk_explicit = JObj
     [(''id'', JNum 7), (''names'', JArr [JStr ''main'']), (''size'', JNum 500),
      (''modules'', JArr [JObj [(''size'', JNum 400)], JObj [(''size'', JNum 500)]])]"

text \<open>A chunk that has a \<open>names\<close> sequence and neither \<open>id\<close> nor \<open>name\<close>, and a matching asset.\<close>

definition chunk_names_only :: jv where
  "chunk_names_only = JObj [(''names'', JArr [JStr ''main''])]"

definition doc_main_asset :: jv where
  "doc_main_asset = JObj [(''assets'', JArr [JObj [(''name'', JStr ''main.js''), (''size'', JNum 7)]])]"

text \<open>A store that holds the \<open>modules\<close> and the \<open>chunks\<close> array of \<open>doc_mixed\<close>.\<close>

definition store_mixed :: store where
  "store_mixed =
     [elements (get_field doc_mixed ''modules''), elements (get_field doc_mixed ''chunks'')]"

section \<open>Properties\<close>

subsection \<open>Results of evaluations\<close>

lemma bind_res_Ok_iff: "bind_res r f = Ok y \<longleftrightarrow> (\<exists>x. r = Ok x \<and> f x = Ok y)"
  by (cases r) simp_all

lemma bind_res_Unmodelled_iff:
  "bind_res r f = Unmodelled \<longleftrightarrow> r = Unmodelled \<or> (\<exists>x. r = Ok x \<and> f x = Unmodelled)"
  by (cases r) simp_all


lemma filter_res_Ok: "filter_res p xs = Ok ys \<Longrightarrow> ys = filter (\<lambda>x. p x = Ok True) xs"
  by (induction xs arbitrary: ys) (auto simp: bind_res_Ok_iff)

lemma map_res_modelled:
  "\<forall>x \<in> set xs. f x \<noteq> Unmodelled \<Longrightarrow> map_res f xs \<noteq> Unmodelled"
  by (induction xs) (simp_all add: bind_res_Unmodelled_iff)

lemma filter_res_modelled:
  "\<forall>x \<in> set xs. p x \<noteq> Unmodelled \<Longrightarrow> filter_res p xs \<noteq> Unmodelled"
  by (induction xs) (simp_all add: bind_res_Unmodelled_iff)


lemma set_sort_desc: "set (sort_desc xs) = set xs"
  by (simp add: sort_desc_def)


lemma not_number_case:
  "\<not> is_number v \<Longrightarrow> (case v of JNum n \<Rightarrow> a n | _ \<Rightarrow> b) = b"
  by (cases v) simp_all


lemma get_field_num_truthy: "get_field c k = JNum n \<Longrightarrow> truthy c"
  by (cases c) simp_all

subsection \<open>The chunk size resolver\<close>

lemma explicit_size_returned:
  "get_field chunk ''size'' = JNum n \<Longrightarrow> calculateChunkSize chunk stats = Ok n"
  by (simp add: calculateChunkSize_def get_field_num_truthy)

text \<open>
  Claim C3. For every chunk whose \<open>size\<close> field is a number, the resolver returns that
  number unchanged, whatever its \<open>modules\<close> sequence and whatever the assets of the
  document.
\<close>

theorem calculateChunkSize_explicit_size:
  "get_field chunk ''size'' = JNum n \<Longrightarrow> calculateChunkSize chunk stats = Ok n"
  by (rule explicit_size_returned)

text \<open>
  A chunk with explicit size 500 resolves to 500, although its modules sum to 900 and the
  assets that contain its name sum to 1200.
\<close>

theorem calculateChunkSize_explicit_size_witness:
  "get_field chunk_explicit ''size'' = JNum 500 \<and>
   sum_module_sizes (elements (get_field chunk_explicit ''modules'')) 0 = Ok 900 \<and>
   sum_chunk_assets (JStr ''7'') (JStr ''main'') (elements (get_field doc_scenario ''assets'')) 0
     = Ok 1200 \<and>
   calculateChunkSize chunk_explicit doc_scenario = Ok 500"
proof -
  have h: "get_field chunk_explicit ''size'' = JNum 500"
    by (simp add: chunk_explicit_def)
  have s: "sum_module_sizes (elements (get_field chunk_explicit ''modules'')) 0 = Ok 900"
    by (simp add: chunk_explicit_def)
  have a: "sum_chunk_assets (JStr ''7'') (JStr ''main'')
             (elements (get_field doc_scenario ''assets'')) 0 = Ok 1200"
    by code_simp
  from h s a calculateChunkSize_explicit_size[OF h, of doc_scenario] show ?thesis by simp
qed






text \<open>
  Claim C9. A chunk with no numeric \<open>size\<close> and no \<open>modules\<close> array whose \<open>id\<close> and \<open>name\<close>
  are both absent resolves to 0 in every document, whatever its \<open>names\<close> sequence and
  whatever assets the document has: the assets are consulted only when \<open>id\<close> or \<open>name\<close> is
  present.
\<close>

theorem calculateChunkSize_without_id_and_name:
  assumes "\<not> is_number (get_field chunk ''size'')"
    and "\<not> isArray (get_field chunk ''modules'')"
    and "get_field chunk ''id'' = JUndef"
    and "get_field chunk ''name'' = JUndef"
    and "\<not> nullish stats"
  shows "calculateChunkSize chunk stats = Ok 0"
  using assms by (simp add: calculateChunkSize_def not_number_case get_prop_def)

text \<open>
  The chunk has the names \<open>[main]\<close>, and the document an asset \<open>main.js\<close> of size 7, which
  the same chunk with an \<open>id\<close> is credited with.
\<close>

theorem calculateChunkSize_without_id_and_name_witness:
  "first_elem (get_field chunk_names_only ''names'') = JStr ''main'' \<and>
   calculateChunkSize (JObj [(''id'', JNum 1), (''names'', JArr [JStr ''main''])]) doc_main_asset
     = Ok 7 \<and>
   calculateChunkSize chunk_names_only doc_main_asset = Ok 0"
proof -
  have a: "\<not> is_number (get_field chunk_names_only ''size'')"
    and b: "\<not> isArray (get_field chunk_names_only ''modules'')"
    and c: "get_field chunk_names_only ''id'' = JUndef"
    and d: "get_field chunk_names_only ''name'' = JUndef"
    and e: "\<not> nullish doc_main_asset"
    by (simp_all add: chunk_names_only_def doc_main_asset_def)
  have f: "first_elem (get_field chunk_names_only ''names'') = JStr ''main''"
    by (simp add: chunk_names_only_def)
  have g: "calculateChunkSize (JObj [(''id'', JNum 1), (''names'', JArr [JStr ''main''])])
             doc_main_asset = Ok 7"
    by code_simp
  from calculateChunkSize_without_id_and_name[OF a b c d e] f g show ?thesis by simp
qed

subsection \<open>The module classifier\<close>

lemma getModuleType_marker:
  "index_of p ''node_modules'' = Some i \<Longrightarrow>
   getModuleType p = ''npm:'' @ takeWhile (\<lambda>c. c \<noteq> CHR ''/'') (drop (i + length ''node_modules/'') p)"
proof -
  assume h: "index_of p ''node_modules'' = Some i"
  then have "p \<noteq> []" by auto
  with h show ?thesis by (simp add: getModuleType_def includes_str_def)
qed

text \<open>The branch that returns \<open>npm\<close> is never taken.\<close>

lemma getModuleType_never_npm: "getModuleType p \<noteq> ''npm''"
  by (auto simp: getModuleType_def includes_str_def Let_def split: option.splits)

text \<open>
  Claim C4. A path with the marker \<open>node_modules\<close> is labelled \<open>npm:\<close> and the segment after
  the marker, as in \<open>npm:lodash\<close>; the empty path is \<open>unknown\<close> and \<open>Button.tsx\<close> is
  \<open>typescript\<close>. The label \<open>npm\<close>, which the claim promises when no package name can be
  extracted, is not what the code returns: a path that ends with the marker is labelled
  \<open>npm:\<close>, with an empty package name.
\<close>

theorem getModuleType_examples:
  "getModuleType '''' = ''unknown'' \<and>
   getModuleType ''src/app/node_modules/lodash/index.js'' = ''npm:lodash'' \<and>
   getModuleType ''src/components/Button.tsx'' = ''typescript'' \<and>
   getModuleType ''src/node_modules'' = ''npm:''"
  by code_simp

subsection \<open>What each pass leaves unchanged and what it computes\<close>










lemma chunk_key_Ok:
  "chunk_key stats c = Ok p \<longleftrightarrow> calculateChunkSize c stats = Ok (fst p) \<and> snd p = c"
  by (cases p) (auto simp: chunk_key_def bind_res_Ok_iff)

lemma chunk_keys_resolved:
  "map_res (chunk_key stats) cs = Ok keyed \<Longrightarrow>
   \<forall>p \<in> set keyed. snd p \<in> set cs \<and> calculateChunkSize (snd p) stats = Ok (fst p)"
proof (induction cs arbitrary: keyed)
  case Nil
  then show ?case by simp
next
  case (Cons c cs)
  from Cons.prems obtain p rest where
    p: "chunk_key stats c = Ok p" and r: "map_res (chunk_key stats) cs = Ok rest"
    and keyed: "keyed = p # rest"
    by (auto simp: bind_res_Ok_iff)
  from Cons.IH[OF r] p show ?case unfolding keyed by (auto simp: chunk_key_Ok)
qed






text \<open>To evaluate a report: the statement about it is decided inside the case distinction.\<close>

lemma report_caseD:
  "(case r of Ok (Metrics m) \<Rightarrow> P m | _ \<Rightarrow> False) \<Longrightarrow> \<exists>m. r = Ok (Metrics m) \<and> P m"
  by (auto split: res.splits report.splits)

text \<open>
  The scenario of the specification: total size 1200 split into 1000 of \<open>js\<close> and 200 of
  \<open>css\<close>, an initial load of \<open>1000 / 1024\<close>, one chunk, fragmentation 1 and a build time
  of 543.
\<close>

lemma scenario_report:
  "\<exists>m. extractMetrics doc_scenario = Ok (Metrics m) \<and>
        totalSize m = 1200 \<and> totalSizeByType m = [(''js'', 1000), (''css'', 200)] \<and>
        entry_size m ''main'' = Some 1000 \<and> initialLoad (performance m) = 1000 / 1024 \<and>
        chunkCount m = 1 \<and> chunkFragmentation (performance m) = 1 \<and>
        buildTime m = JNum 543"
  by (rule report_caseD) code_simp

subsection \<open>The counts and the largest modules and chunks\<close>












subsection \<open>Cache efficiency\<close>




subsection \<open>A modules field that is not a sequence\<close>













subsection \<open>The supported documents\<close>

lemma num_or_zero_modelled: "size_ok v \<Longrightarrow> num_or_zero v \<noteq> Unmodelled"
  by (cases v) (simp_all add: size_ok_def)

lemma gt_zero_modelled: "size_ok v \<Longrightarrow> gt_zero v \<noteq> Unmodelled"
  by (cases v) (simp_all add: size_ok_def)

lemma to_str_modelled: "printable v \<Longrightarrow> to_str v \<noteq> Unmodelled"
  by (cases v) (simp_all add: num_to_string_def)

lemma opt_toString_modelled: "printable v \<Longrightarrow> opt_toString v \<noteq> Unmodelled"
  by (simp add: opt_toString_def bind_res_Unmodelled_iff to_str_modelled)

lemma opt_toString_printable: "opt_toString v = Ok i \<Longrightarrow> printable i"
  by (auto simp: opt_toString_def bind_res_Ok_iff split: if_splits)

lemma includes_js_modelled: "printable v \<Longrightarrow> includes_js h v \<noteq> Unmodelled"
  by (cases h) (simp_all add: bind_res_Unmodelled_iff to_str_modelled)

lemma isChunkAsset_modelled:
  "printable i \<Longrightarrow> printable nm \<Longrightarrow> isChunkAsset i nm a \<noteq> Unmodelled"
  by (simp add: isChunkAsset_def bind_res_Unmodelled_iff includes_js_modelled)

lemma sum_chunk_assets_modelled:
  "\<forall>a \<in> set as. size_ok (get_field a ''size'') \<Longrightarrow> printable i \<Longrightarrow> printable nm \<Longrightarrow>
   sum_chunk_assets i nm as t \<noteq> Unmodelled"
proof (induction as arbitrary: t)
  case Nil
  then show ?case by simp
next
  case (Cons a as)
  then show ?case
    by (simp add: bind_res_Unmodelled_iff isChunkAsset_modelled num_or_zero_modelled)
qed

lemma sum_module_sizes_modelled:
  "\<forall>m \<in> set ms. size_ok (get_field m ''size'') \<Longrightarrow> sum_module_sizes ms t \<noteq> Unmodelled"
proof (induction ms arbitrary: t)
  case Nil
  then show ?case by simp
next
  case (Cons m ms)
  then show ?case by (simp add: bind_res_Unmodelled_iff num_or_zero_modelled)
qed

lemma calculateChunkSize_modelled:
  assumes "supported_chunk c"
    and "\<forall>a \<in> set (elements (get_field stats ''assets'')). size_ok (get_field a ''size'')"
  shows "calculateChunkSize c stats \<noteq> Unmodelled"
proof (cases "truthy c \<and> \<not> is_number (get_field c ''size'')")
  case False
  then show ?thesis
    by (cases "get_field c ''size''") (auto simp: calculateChunkSize_def)
next
  case True
  then have "calculateChunkSize c stats =
      (if isArray (get_field c ''modules'')
        then sum_module_sizes (elements (get_field c ''modules'')) 0
        else
          bind_res (get_prop stats ''assets'') (\<lambda>assets.
            if isArray assets \<and>
               (get_field c ''id'' \<noteq> JUndef \<or> get_field c ''name'' \<noteq> JUndef)
            then
              bind_res (opt_toString (get_field c ''id'')) (\<lambda>chunkId.
                sum_chunk_assets chunkId
                  (or_js (first_elem (get_field c ''names'')) (get_field c ''name''))
                  (elements assets) 0)
            else Ok 0))"
    by (simp add: calculateChunkSize_def not_number_case)
  also have "\<dots> \<noteq> Unmodelled"
    using assms
    by (auto simp: supported_chunk_def get_prop_def bind_res_Unmodelled_iff
        sum_module_sizes_modelled sum_chunk_assets_modelled
          opt_toString_modelled dest: opt_toString_printable)
  finally show ?thesis .
qed

lemma assets_loop_modelled:
  "\<forall>a \<in> set as. supported_asset a \<Longrightarrow> assets_loop as m \<noteq> Unmodelled"
proof (induction as arbitrary: m)
  case Nil
  then show ?case by simp
next
  case (Cons a as)
  have "file_type e \<notin> set object_prototype_names"
    if "extname_of (or_js (get_field a ''name'') (JStr [])) = Ok e" for e
    using that Cons.prems
    by (cases "or_js (get_field a ''name'') (JStr [])") (auto simp: supported_asset_def)
  moreover have "extname_of v \<noteq> Unmodelled" for v by (cases v) simp_all
  ultimately show ?case
    using Cons
    by (simp add: bind_res_Unmodelled_iff num_or_zero_modelled supported_asset_def Let_def)
qed

lemma sum_entry_assets_modelled:
  "\<forall>a \<in> set as. size_ok (get_field a ''size'') \<Longrightarrow> sum_entry_assets as t \<noteq> Unmodelled"
proof (induction as arbitrary: t)
  case Nil
  then show ?case by simp
next
  case (Cons a as)
  then show ?case by (simp add: bind_res_Unmodelled_iff num_or_zero_modelled)
qed

lemma entrypoints_loop_modelled:
  "\<forall>e \<in> set es. \<forall>a \<in> set (elements (get_field (snd e) ''assets'')). size_ok (get_field a ''size'')
   \<Longrightarrow> entrypoints_loop es m \<noteq> Unmodelled"
proof (induction es arbitrary: m)
  case Nil
  then show ?case by simp
next
  case (Cons e es)
  obtain name ep where e: "e = (name, ep)" by (cases e)
  from Cons show ?case unfolding e
    by (simp add: bind_res_Unmodelled_iff sum_entry_assets_modelled)
qed

lemma valid_module_modelled: "size_ok (get_field x ''size'') \<Longrightarrow> valid_module x \<noteq> Unmodelled"
  by (simp add: valid_module_def gt_zero_modelled)

lemma module_key_modelled: "size_ok (get_field x ''size'') \<Longrightarrow> module_key x \<noteq> Unmodelled"
  by (simp add: module_key_def bind_res_Unmodelled_iff num_or_zero_modelled)

lemma module_entry_modelled: "module_entry p \<noteq> Unmodelled"
proof -
  have "getModuleType_of v \<noteq> Unmodelled" for v by (cases v) simp_all
  then show ?thesis by (simp add: module_entry_def bind_res_Unmodelled_iff)
qed

lemma chunk_entry_modelled:
  "printable (get_field (snd p) ''id'') \<Longrightarrow> chunk_entry p \<noteq> Unmodelled"
  by (simp add: chunk_entry_def bind_res_Unmodelled_iff opt_toString_modelled)

lemma assets_pass_modelled: "supported stats \<Longrightarrow> assets_pass stats m \<noteq> Unmodelled"
  by (simp add: assets_pass_def supported_def assets_loop_modelled)

lemma entrypoints_pass_modelled: "supported stats \<Longrightarrow> entrypoints_pass stats m \<noteq> Unmodelled"
  by (simp add: entrypoints_pass_def supported_def entrypoints_loop_modelled)

lemma modules_pass_modelled:
  assumes "supported stats"
  shows "modules_pass stats m \<noteq> Unmodelled"
proof -
  let ?ms = "elements (get_field stats ''modules'')"
  have ok: "\<forall>x \<in> set ?ms. size_ok (get_field x ''size'')"
    using assms by (simp add: supported_def)
  then have f: "filter_res valid_module ?ms \<noteq> Unmodelled"
    by (intro filter_res_modelled) (simp add: valid_module_modelled)
  have k: "map_res module_key valid \<noteq> Unmodelled"
    if "filter_res valid_module ?ms = Ok valid" for valid
  proof -
    from filter_res_Ok[OF that] have "set valid \<subseteq> set ?ms" by auto
    with ok show ?thesis by (intro map_res_modelled) (auto simp: module_key_modelled)
  qed
  have e: "map_res module_entry ps \<noteq> Unmodelled" for ps
    by (intro map_res_modelled) (simp add: module_entry_modelled)
  show ?thesis
    by (simp add: modules_pass_def bind_res_Unmodelled_iff f k e)
qed

lemma chunks_pass_modelled:
  assumes "supported stats"
  shows "chunks_pass stats m \<noteq> Unmodelled"
proof -
  have sc: "\<forall>c \<in> set (valid_chunks stats). supported_chunk c"
    using assms by (simp add: supported_def valid_chunks_def)
  have sa: "\<forall>a \<in> set (elements (get_field stats ''assets'')). size_ok (get_field a ''size'')"
    using assms by (simp add: supported_def supported_asset_def)
  have k: "map_res (chunk_key stats) (valid_chunks stats) \<noteq> Unmodelled"
    using sc sa
    by (intro map_res_modelled)
      (simp add: chunk_key_def bind_res_Unmodelled_iff calculateChunkSize_modelled)
  have e: "map_res chunk_entry (take 10 (sort_desc keyed)) \<noteq> Unmodelled"
    if "map_res (chunk_key stats) (valid_chunks stats) = Ok keyed" for keyed
  proof (intro map_res_modelled ballI chunk_entry_modelled)
    fix p assume "p \<in> set (take 10 (sort_desc keyed))"
    then have "p \<in> set keyed" by (auto dest: in_set_takeD simp: set_sort_desc)
    with chunk_keys_resolved[OF that] have "snd p \<in> set (valid_chunks stats)" by simp
    with sc show "printable (get_field (snd p) ''id'')" by (simp add: supported_chunk_def)
  qed
  show ?thesis
    by (simp add: chunks_pass_def bind_res_Unmodelled_iff k e)
qed

lemma extract_body_modelled: "supported stats \<Longrightarrow> extract_body stats \<noteq> Unmodelled"
  by (simp add: extract_body_def bind_res_Unmodelled_iff get_prop_def assets_pass_modelled
      entrypoints_pass_modelled modules_pass_modelled chunks_pass_modelled)

text \<open>
  Outside the supported documents: a size that is a string. The functions of the first
  sections abstain there.
\<close>

lemma string_size_unmodelled:
  "\<not> supported doc_string_size \<and> extractMetrics doc_string_size = Unmodelled"
  by code_simp

subsection \<open>Totals that stay numbers\<close>

lemma bind_out_Returned_iff:
  "bind_out r f = Returned y \<longleftrightarrow> (\<exists>x. r = Returned x \<and> f x = Returned y)"
  by (cases r) simp_all

lemma map_out_Returned:
  "map_out f xs = Returned ys \<Longrightarrow>
   length ys = length xs \<and> (\<forall>i < length xs. f (xs ! i) = Returned (ys ! i))"
proof (induction xs arbitrary: ys)
  case Nil
  then show ?case by simp
next
  case (Cons x xs)
  then obtain y ys' where y: "f x = Returned y" and r: "map_out f xs = Returned ys'"
    and ys: "ys = y # ys'"
    by (auto simp: bind_out_Returned_iff)
  from Cons.IH[OF r] y show ?case unfolding ys by (auto simp: nth_Cons split: nat.splits)
qed

lemma map_out_Returned_set:
  assumes "map_out f xs = Returned ys" and "y \<in> set ys"
  shows "\<exists>x \<in> set xs. f x = Returned y"
proof -
  from assms(2) obtain i where i: "i < length ys" "ys ! i = y" by (auto simp: in_set_conv_nth)
  with map_out_Returned[OF assms(1)] have "f (xs ! i) = Returned y" "i < length xs" by auto
  then show ?thesis by (auto intro: bexI[of _ "xs ! i"])
qed

lemma filter_out_Returned_set: "filter_out p xs = Returned ys \<Longrightarrow> set ys \<subseteq> set xs"
proof (induction xs arbitrary: ys)
  case Nil
  then show ?case by simp
next
  case (Cons x xs)
  then show ?case by (auto simp: bind_out_Returned_iff split: if_splits)
qed

lemma set_insert_desc: "set (insert_desc x ys) = insert x (set ys)"
  by (induction ys) auto

lemma set_foldr_insert_desc: "set (foldr insert_desc ps []) = set ps"
  by (induction ps) (simp_all add: set_insert_desc)

lemma set_sort_any: "set (sort_any rt ps) \<subseteq> set ps"
  by (auto simp: sort_any_def set_foldr_insert_desc)

text \<open>Sizes that are numbers or falsy keep every total a finite number.\<close>

lemma plus_or_zero_finite:
  "size_ok x \<Longrightarrow> finite_number t \<Longrightarrow>
   \<exists>q. plus_or_zero rt t x = Returned (NumV (Fin q))"
  by (cases t rule: finite_number.cases; cases x)
    (simp_all add: plus_or_zero_def or_js_def size_ok_def)

lemma plus_or_zero_finiteD:
  "plus_or_zero rt t x = Returned t' \<Longrightarrow> size_ok x \<Longrightarrow> finite_number t \<Longrightarrow>
   finite_number t'"
  using plus_or_zero_finite[of x t rt] by auto

lemma sum_module_sizes_any_finite:
  "sum_module_sizes_any rt ms t = Returned t' \<Longrightarrow>
   \<forall>m \<in> set ms. size_ok (get_field m ''size'') \<Longrightarrow> finite_number t \<Longrightarrow> finite_number t'"
proof (induction ms arbitrary: t)
  case Nil
  then show ?case by simp
next
  case (Cons m ms)
  then show ?case by (auto simp: bind_out_Returned_iff dest: plus_or_zero_finiteD)
qed

lemma sum_chunk_assets_any_finite:
  "sum_chunk_assets_any rt i nm as t = Returned t' \<Longrightarrow>
   \<forall>a \<in> set as. size_ok (get_field a ''size'') \<Longrightarrow> finite_number t \<Longrightarrow> finite_number t'"
proof (induction as arbitrary: t)
  case Nil
  then show ?case by simp
next
  case (Cons a as)
  have z: "size_ok (JNum 0)" by (simp add: size_ok_def)
  from Cons z show ?case
    by (auto simp: bind_out_Returned_iff split: if_splits dest: plus_or_zero_finiteD)
qed

lemma calculateChunkSize_any_finite:
  assumes "calculateChunkSize_any rt c stats = Returned t"
    and "\<forall>m \<in> set (elements (get_field c ''modules'')). size_ok (get_field m ''size'')"
    and "\<forall>a \<in> set (elements (get_field stats ''assets'')). size_ok (get_field a ''size'')"
  shows "finite_number t"
proof (cases "truthy c \<and> \<not> is_number (get_field c ''size'')")
  case False
  with assms(1) show ?thesis
    by (cases "get_field c ''size''") (auto simp: calculateChunkSize_any_def split: if_splits)
next
  case True
  with assms(1) have "(if isArray (get_field c ''modules'')
        then sum_module_sizes_any rt (elements (get_field c ''modules'')) (NumV (Fin 0))
        else
          bind_out (prop_of stats ''assets'') (\<lambda>assets.
            if isArray assets \<and>
               (get_field c ''id'' \<noteq> JUndef \<or> get_field c ''name'' \<noteq> JUndef)
            then
              bind_out (opt_text_of rt (get_field c ''id'')) (\<lambda>chunkId.
                sum_chunk_assets_any rt chunkId
                  (or_js (first_elem (get_field c ''names'')) (get_field c ''name''))
                  (elements assets) (NumV (Fin 0)))
            else Returned (NumV (Fin 0)))) = Returned t"
    by (simp add: calculateChunkSize_any_def not_number_case)
  with assms(2,3) show ?thesis
    by (auto simp: bind_out_Returned_iff prop_of_def split: if_splits
        dest: sum_module_sizes_any_finite sum_chunk_assets_any_finite)
qed

lemma set_own_all:
  "\<forall>p \<in> set ps. P (snd p) \<Longrightarrow> P v \<Longrightarrow> \<forall>p \<in> set (set_own ps k v). P (snd p)"
  by (induction ps) (fastforce split: if_splits)+

lemma type_total_finite:
  "\<forall>p \<in> set byType. finite_number (snd p) \<Longrightarrow> ext \<notin> set object_prototype_names \<Longrightarrow>
   finite_number (type_total rt byType ext)"
proof (cases "map_of byType ext")
  case None
  assume "ext \<notin> set object_prototype_names"
  moreover from this have "ext \<noteq> ''__proto__''" by (auto simp: object_prototype_names_def)
  ultimately show ?thesis using None by (simp add: type_total_def)
next
  case (Some a)
  assume "\<forall>p \<in> set byType. finite_number (snd p)"
  with map_of_SomeD[OF Some] have "finite_number a" by (auto dest: bspec)
  with Some show ?thesis by (simp add: type_total_def)
qed

lemma initial_metrics_any_numeric: "numeric_report (initial_metrics_any t)"
  by (simp add: numeric_report_def initial_metrics_any_def)

lemma assets_loop_any_numeric:
  "assets_loop_any rt as m = Returned m' \<Longrightarrow> \<forall>a \<in> set as. supported_asset a \<Longrightarrow>
   numeric_report m \<Longrightarrow> numeric_report m'"
proof (induction as arbitrary: m)
  case Nil
  then show ?case by simp
next
  case (Cons a as)
  show ?case
  proof (cases "truthy a")
    case False
    with Cons show ?thesis by simp
  next
    case True
    with Cons.prems(1) obtain tot e t where
      tot: "plus_or_zero rt (totalSize_any m) (get_field a ''size'') = Returned tot"
      and e: "extname_any (or_js (get_field a ''name'') (JStr [])) = Returned e"
      and t: "plus_or_zero rt (type_total rt (totalSizeByType_any m) (file_type e))
                (get_field a ''size'') = Returned t"
      and rest: "assets_loop_any rt as
            (m\<lparr>totalSize_any := tot,
               totalSizeByType_any :=
                 (if file_type e = ''__proto__'' then totalSizeByType_any m
                  else set_own (totalSizeByType_any m) (file_type e) t)\<rparr>) = Returned m'"
      by (auto simp: bind_out_Returned_iff)
    from Cons.prems(2) have sz: "size_ok (get_field a ''size'')"
      and own: "own_file_type (or_js (get_field a ''name'') (JStr []))"
      by (simp_all add: supported_asset_def)
    from e own have ext: "file_type e \<notin> set object_prototype_names"
      by (cases "or_js (get_field a ''name'') (JStr [])") auto
    from Cons.prems(3) have m: "finite_number (totalSize_any m)"
      "\<forall>p \<in> set (totalSizeByType_any m). finite_number (snd p)"
      by (simp_all add: numeric_report_def)
    from plus_or_zero_finiteD[OF tot sz m(1)] have 1: "finite_number tot" .
    from plus_or_zero_finiteD[OF t sz type_total_finite[OF m(2) ext]]
    have 2: "finite_number t" .
    have "numeric_report (m\<lparr>totalSize_any := tot,
               totalSizeByType_any :=
                 (if file_type e = ''__proto__'' then totalSizeByType_any m
                  else set_own (totalSizeByType_any m) (file_type e) t)\<rparr>)"
      using Cons.prems(3) 1 set_own_all[OF m(2), of t "file_type e"] 2
      by (simp add: numeric_report_def)
    from Cons.IH[OF rest _ this] Cons.prems(2) show ?thesis by simp
  qed
qed

lemma assets_pass_any_numeric:
  "assets_pass_any rt stats m = Returned m' \<Longrightarrow> numeric_sizes stats \<Longrightarrow>
   numeric_report m \<Longrightarrow> numeric_report m'"
proof -
  assume a: "assets_pass_any rt stats m = Returned m'" and s: "numeric_sizes stats"
    and m: "numeric_report m"
  have "numeric_report (m\<lparr>assetCount_any := n\<rparr>)" for n
    using m by (simp add: numeric_report_def)
  with a s m show ?thesis
    by (auto simp: assets_pass_any_def numeric_sizes_def split: if_splits
        dest: assets_loop_any_numeric)
qed

lemma sum_entry_assets_any_finite:
  "sum_entry_assets_any rt as t = Returned t' \<Longrightarrow>
   \<forall>a \<in> set as. size_ok (get_field a ''size'') \<Longrightarrow> finite_number t \<Longrightarrow> finite_number t'"
proof (induction as arbitrary: t)
  case Nil
  then show ?case by simp
next
  case (Cons a as)
  then show ?case
    by (auto simp: bind_out_Returned_iff split: if_splits dest: plus_or_zero_finiteD)
qed

lemma entrypoints_loop_any_numeric:
  "entrypoints_loop_any rt es m = Returned m' \<Longrightarrow>
   \<forall>e \<in> set es. \<forall>a \<in> set (elements (get_field (snd e) ''assets'')). size_ok (get_field a ''size'')
   \<Longrightarrow> numeric_report m \<Longrightarrow> numeric_report m'"
proof (induction es arbitrary: m)
  case Nil
  then show ?case by simp
next
  case (Cons e es)
  obtain name ep where e: "e = (name, ep)" by (cases e)
  show ?case
  proof (cases "truthy ep")
    case False
    with Cons show ?thesis unfolding e by simp
  next
    case True
    let ?upd = "\<lambda>sz. m\<lparr>entrypoints_any :=
                    (if name = ''__proto__'' then entrypoints_any m
                     else set_own (entrypoints_any m) name
                            \<lparr>ea_size = sz,
                             ea_chunks = or_js (get_field ep ''chunks'') (JArr [])\<rparr>),
                  performance_any :=
                    (if name = ''main'' \<or> name = ''index''
                     then (performance_any m)
                            \<lparr>initialLoad_any := num_div (acc_num rt sz) (Fin 1024)\<rparr>
                     else performance_any m)\<rparr>"
    from Cons.prems(1) True obtain sz where
      sz: "(if isArray (get_field ep ''assets'')
           then sum_entry_assets_any rt (elements (get_field ep ''assets'')) (NumV (Fin 0))
           else Returned (NumV (Fin 0))) = Returned sz"
      and rest: "entrypoints_loop_any rt es (?upd sz) = Returned m'"
      unfolding e by (auto simp: bind_out_Returned_iff)
    from sz Cons.prems(2) have "finite_number sz"
      unfolding e by (auto split: if_splits dest: sum_entry_assets_any_finite)
    then obtain q where q: "sz = NumV (Fin q)" by (cases sz rule: finite_number.cases) auto
    from Cons.prems(3) have ep: "\<forall>p \<in> set (entrypoints_any m). finite_number (ea_size (snd p))"
      by (simp add: numeric_report_def)
    have "numeric_report (?upd sz)"
      using Cons.prems(3)
        set_own_all[where P = "\<lambda>x. finite_number (ea_size x)", OF ep, of
          "\<lparr>ea_size = sz, ea_chunks = or_js (get_field ep ''chunks'') (JArr [])\<rparr>" name]
      by (simp add: numeric_report_def q)
    from Cons.IH[OF rest _ this] Cons.prems(2) show ?thesis by simp
  qed
qed

lemma entrypoints_pass_any_numeric:
  "entrypoints_pass_any rt stats m = Returned m' \<Longrightarrow> numeric_sizes stats \<Longrightarrow>
   numeric_report m \<Longrightarrow> numeric_report m'"
  by (auto simp: entrypoints_pass_any_def numeric_sizes_def split: if_splits
      dest: entrypoints_loop_any_numeric)

lemma or_zero_number: "size_ok x \<Longrightarrow> is_number (or_js x (JNum 0))"
  by (cases x) (simp_all add: size_ok_def or_js_def)

lemma modules_pass_any_numeric:
  assumes "modules_pass_any rt stats m = Returned m'" and "numeric_sizes stats"
    and "numeric_report m"
  shows "numeric_report m'"
proof (cases "isArray (get_field stats ''modules'')")
  case False
  with assms show ?thesis by (simp add: modules_pass_any_def)
next
  case True
  let ?ms = "elements (get_field stats ''modules'')"
  from assms(1) True obtain valid keyed largest where
    v: "filter_out (valid_module_any rt) ?ms = Returned valid"
    and k: "map_out (module_key_any rt) valid = Returned keyed"
    and l: "map_out module_entry_any (take 20 (sort_any rt keyed)) = Returned largest"
    and m': "m' = m\<lparr>moduleCount_any := length valid, largestModules_any := largest\<rparr>"
    by (auto simp: modules_pass_any_def bind_out_Returned_iff)
  have "is_number (ma_size e)" if "e \<in> set largest" for e
  proof -
    from map_out_Returned_set[OF l that] obtain p where
      p: "p \<in> set (take 20 (sort_any rt keyed))" and e: "module_entry_any p = Returned e"
      by auto
    from p have "p \<in> set keyed" using set_sort_any[of rt keyed] by (auto dest: in_set_takeD)
    then obtain i where i: "i < length keyed" "keyed ! i = p" by (auto simp: in_set_conv_nth)
    with map_out_Returned[OF k] have "module_key_any rt (valid ! i) = Returned p" "i < length valid"
      by auto
    then have "snd p \<in> set valid"
      by (auto simp: module_key_any_def bind_out_Returned_iff)
    with filter_out_Returned_set[OF v] have "snd p \<in> set ?ms" by auto
    with assms(2) have "size_ok (get_field (snd p) ''size'')" by (simp add: numeric_sizes_def)
    with e show ?thesis
      by (auto simp: module_entry_any_def bind_out_Returned_iff or_zero_number)
  qed
  with assms(3) show ?thesis unfolding m' by (simp add: numeric_report_def)
qed

lemma chunks_pass_any_numeric:
  assumes "chunks_pass_any rt stats m = Returned m'" and "numeric_sizes stats"
    and "numeric_report m"
  shows "numeric_report m'"
proof (cases "isArray (get_field stats ''chunks'')")
  case False
  with assms show ?thesis by (simp add: chunks_pass_any_def)
next
  case True
  from assms(1) True obtain keyed largest where
    k: "map_out (chunk_key_any rt stats) (valid_chunks stats) = Returned keyed"
    and l: "map_out (chunk_entry_any rt) (take 10 (sort_chunks_any rt keyed)) = Returned largest"
    and lc: "largestChunks_any m' = largest"
    and rest: "totalSize_any m' = totalSize_any m" "totalSizeByType_any m' = totalSizeByType_any m"
      "entrypoints_any m' = entrypoints_any m" "largestModules_any m' = largestModules_any m"
      "initialLoad_any (performance_any m') = initialLoad_any (performance_any m)"
      "cacheEfficiency_any (performance_any m') = cacheEfficiency_any (performance_any m)"
    by (auto simp: chunks_pass_any_def bind_out_Returned_iff)
  have sa: "\<forall>a \<in> set (elements (get_field stats ''assets'')). size_ok (get_field a ''size'')"
    using assms(2) by (simp add: numeric_sizes_def supported_asset_def)
  have "finite_number (ca_size c)" if "c \<in> set largest" for c
  proof -
    from map_out_Returned_set[OF l that] obtain p where
      p: "p \<in> set (take 10 (sort_chunks_any rt keyed))" and c: "chunk_entry_any rt p = Returned c"
      by auto
    from p have "p \<in> snd ` set (sort_any rt (map (\<lambda>p. (fst (fst p), p)) keyed))"
      by (auto simp: sort_chunks_any_def dest: in_set_takeD)
    also have "\<dots> \<subseteq> snd ` set (map (\<lambda>p. (fst (fst p), p)) keyed)"
      by (intro image_mono set_sort_any)
    also have "\<dots> = set keyed" by (simp add: image_image)
    finally have "p \<in> set keyed" .
    then obtain i where i: "i < length keyed" "keyed ! i = p" by (auto simp: in_set_conv_nth)
    with map_out_Returned[OF k]
    have kk: "chunk_key_any rt stats (valid_chunks stats ! i) = Returned p"
      and il: "i < length (valid_chunks stats)"
      by auto
    from il have "valid_chunks stats ! i \<in> set (elements (get_field stats ''chunks''))"
      using nth_mem[OF il] by (auto simp: valid_chunks_def)
    with assms(2) have
      "\<forall>m \<in> set (elements (get_field (valid_chunks stats ! i) ''modules'')).
         size_ok (get_field m ''size'')"
      by (simp add: numeric_sizes_def)
    with kk sa have "finite_number (snd (fst p))"
      by (auto simp: chunk_key_any_def bind_out_Returned_iff
          dest: calculateChunkSize_any_finite)
    with c show ?thesis by (auto simp: chunk_entry_any_def bind_out_Returned_iff)
  qed
  with assms(3) show ?thesis by (simp add: numeric_report_def lc rest)
qed

lemma mainBundleSize_any_finite:
  "\<forall>p \<in> set (entrypoints_any m). finite_number (ea_size (snd p)) \<Longrightarrow>
   finite_number (mainBundleSize_any m)"
proof -
  assume a: "\<forall>p \<in> set (entrypoints_any m). finite_number (ea_size (snd p))"
  have "finite_number x" if "entry_size_any m name = Some x" for name x
    using that a by (auto simp: entry_size_any_def dest!: map_of_SomeD)
  then show ?thesis
    by (auto simp: mainBundleSize_any_def truthy_size_def split: option.splits)
qed

lemma cache_pass_any_numeric: "numeric_report m \<Longrightarrow> numeric_report (cache_pass_any rt m)"
proof -
  assume m: "numeric_report m"
  then obtain t where t: "totalSize_any m = NumV (Fin t)"
    by (cases "totalSize_any m" rule: finite_number.cases) (auto simp: numeric_report_def)
  from m obtain b where b: "mainBundleSize_any m = NumV (Fin b)"
    using mainBundleSize_any_finite[of m]
    by (cases "mainBundleSize_any m" rule: finite_number.cases) (auto simp: numeric_report_def)
  show ?thesis
    using m by (simp add: cache_pass_any_def numeric_report_def t b num_sub_def num_min_def)
qed

lemma extract_body_any_numeric:
  assumes "extract_body_any rt stats = Returned m" and "numeric_sizes stats"
  shows "numeric_report m"
proof -
  from assms(1) obtain t m1 m2 m3 m4 where
    "assets_pass_any rt stats (initial_metrics_any (or_js t (JNum 0))) = Returned m1"
    "entrypoints_pass_any rt stats m1 = Returned m2"
    "modules_pass_any rt stats m2 = Returned m3"
    "chunks_pass_any rt stats m3 = Returned m4"
    "m = cache_pass_any rt m4"
    by (auto simp: extract_body_any_def bind_out_Returned_iff)
  with assms(2) show ?thesis
    using initial_metrics_any_numeric assets_pass_any_numeric entrypoints_pass_any_numeric
      modules_pass_any_numeric chunks_pass_any_numeric cache_pass_any_numeric
    by metis
qed

lemma extractMetrics_any_cases:
  "(\<exists>m. extract_body_any rt stats = Returned m \<and> extractMetrics_any rt stats = MetricsObject m) \<or>
   (extract_body_any rt stats = Thrown \<and>
    extractMetrics_any rt stats = ErrorObject ''Failed to extract metrics'')"
  by (cases "extract_body_any rt stats") (simp_all add: extractMetrics_any_def)

subsection \<open>The two extractions agree\<close>

text \<open>
  Wherever the functions of the first sections yield a value or throw, the functions that
  follow the source on every document do the same.
\<close>

lemma agrees_simps [simp]:
  "agrees e (Ok x) out \<longleftrightarrow> out = Returned (e x)"
  "agrees e Throws out \<longleftrightarrow> out = Thrown"
  "agrees e Unmodelled out"
  by (simp_all add: agrees_def)

lemma agrees_bind:
  assumes "agrees e1 r out" and "\<And>x. r = Ok x \<Longrightarrow> agrees e2 (f x) (g (e1 x))"
  shows "agrees e2 (bind_res r f) (bind_out out g)"
  using assms by (cases r) simp_all

lemma agrees_map:
  "(\<And>x. x \<in> set xs \<Longrightarrow> agrees e (f x) (g (h x))) \<Longrightarrow>
   agrees (map e) (map_res f xs) (map_out g (map h xs))"
proof (induction xs)
  case Nil
  then show ?case by simp
next
  case (Cons x xs)
  show ?case
    unfolding map_res.simps map_out.simps list.map
  proof (rule agrees_bind[where ?e1.0 = e])
    show "agrees e (f x) (g (h x))" using Cons.prems by simp
  next
    fix y assume "f x = Ok y"
    show "agrees (map e) (bind_res (map_res f xs) (\<lambda>ys. Ok (y # ys)))
            (bind_out (map_out g (map h xs)) (\<lambda>ys. Returned (e y # ys)))"
      by (rule agrees_bind[where ?e1.0 = "map e"]) (use Cons in simp_all)
  qed
qed

lemma agrees_filter:
  "(\<And>x. x \<in> set xs \<Longrightarrow> agrees (\<lambda>x. x) (p x) (q x)) \<Longrightarrow>
   agrees (\<lambda>x. x) (filter_res p xs) (filter_out q xs)"
proof (induction xs)
  case Nil
  then show ?case by simp
next
  case (Cons x xs)
  show ?case
    unfolding filter_res.simps filter_out.simps
  proof (rule agrees_bind[where ?e1.0 = "\<lambda>x. x"])
    show "agrees (\<lambda>x. x) (p x) (q x)" using Cons.prems by simp
  next
    fix keep assume "p x = Ok keep"
    show "agrees (\<lambda>x. x) (bind_res (filter_res p xs) (\<lambda>ys. Ok (if keep then x # ys else ys)))
            (bind_out (filter_out q xs) (\<lambda>ys. Returned (if keep then x # ys else ys)))"
      by (rule agrees_bind[where ?e1.0 = "\<lambda>x. x"]) (use Cons in simp_all)
  qed
qed

lemma to_str_agrees: "agrees (\<lambda>x. x) (to_str v) (text_of rt v)"
  by (cases v) (simp_all add: num_to_string_def)

lemma opt_toString_agrees: "agrees (\<lambda>x. x) (opt_toString v) (opt_text_of rt v)"
  using to_str_agrees[of v rt]
  by (cases "to_str v") (simp_all add: opt_toString_def opt_text_of_def)

lemma includes_js_agrees: "agrees (\<lambda>x. x) (includes_js h v) (includes_any rt h v)"
  using to_str_agrees[of v rt]
  by (cases h; cases "to_str v") simp_all

lemma num_or_zero_agrees:
  "agrees (\<lambda>q. NumV (Fin (a + q))) (num_or_zero x) (plus_or_zero rt (NumV (Fin a)) x)"
  by (cases x) (simp_all add: plus_or_zero_def or_js_def)

lemma gt_zero_agrees: "agrees (\<lambda>x. x) (gt_zero x) (above_zero rt x)"
  by (cases x) (simp_all add: above_zero_def to_num_def text_to_num_def)

lemma sum_module_sizes_agrees:
  "agrees (\<lambda>q. NumV (Fin q)) (sum_module_sizes ms a) (sum_module_sizes_any rt ms (NumV (Fin a)))"
proof (induction ms arbitrary: a)
  case Nil
  then show ?case by simp
next
  case (Cons m ms)
  show ?case
    unfolding sum_module_sizes.simps sum_module_sizes_any.simps
    by (rule agrees_bind[OF num_or_zero_agrees]) (simp add: Cons)
qed

lemma isChunkAsset_agrees: "agrees (\<lambda>x. x) (isChunkAsset i nm a) (isChunkAsset_any rt i nm a)"
  unfolding isChunkAsset_def isChunkAsset_any_def
  by (rule agrees_bind[where ?e1.0 = "\<lambda>x. x"]) (simp_all add: includes_js_agrees)

lemma sum_chunk_assets_agrees:
  "agrees (\<lambda>q. NumV (Fin q)) (sum_chunk_assets i nm as a)
     (sum_chunk_assets_any rt i nm as (NumV (Fin a)))"
proof (induction as arbitrary: a)
  case Nil
  then show ?case by simp
next
  case (Cons x as)
  show ?case
  proof (cases "truthy x")
    case False
    then show ?thesis by (simp add: Cons)
  next
    case True
    have "agrees (\<lambda>q. NumV (Fin q))
        (bind_res (isChunkAsset i nm x) (\<lambda>hit.
           bind_res (if hit then num_or_zero (get_field x ''size'') else Ok 0) (\<lambda>y.
           sum_chunk_assets i nm as (a + y))))
        (bind_out (isChunkAsset_any rt i nm x) (\<lambda>hit.
           bind_out (if hit then plus_or_zero rt (NumV (Fin a)) (get_field x ''size'')
                     else plus_or_zero rt (NumV (Fin a)) (JNum 0)) (\<lambda>t.
           sum_chunk_assets_any rt i nm as t)))"
    proof (rule agrees_bind[OF isChunkAsset_agrees])
      fix hit
      show "agrees (\<lambda>q. NumV (Fin q))
          (bind_res (if hit then num_or_zero (get_field x ''size'') else Ok 0) (\<lambda>y.
             sum_chunk_assets i nm as (a + y)))
          (bind_out (if hit then plus_or_zero rt (NumV (Fin a)) (get_field x ''size'')
                     else plus_or_zero rt (NumV (Fin a)) (JNum 0)) (\<lambda>t.
             sum_chunk_assets_any rt i nm as t))"
      proof (rule agrees_bind[where ?e1.0 = "\<lambda>q. NumV (Fin (a + q))"])
        show "agrees (\<lambda>q. NumV (Fin (a + q)))
            (if hit then num_or_zero (get_field x ''size'') else Ok 0)
            (if hit then plus_or_zero rt (NumV (Fin a)) (get_field x ''size'')
             else plus_or_zero rt (NumV (Fin a)) (JNum 0))"
          using num_or_zero_agrees[of a "get_field x ''size''" rt]
          by (simp add: plus_or_zero_def or_js_def)
      qed (simp add: Cons)
    qed
    with True show ?thesis by simp
  qed
qed

lemma calculateChunkSize_agrees:
  "agrees (\<lambda>q. NumV (Fin q)) (calculateChunkSize c stats) (calculateChunkSize_any rt c stats)"
proof (cases "truthy c \<and> \<not> is_number (get_field c ''size'')")
  case False
  then show ?thesis
    by (cases "get_field c ''size''")
      (auto simp: calculateChunkSize_def calculateChunkSize_any_def)
next
  case True
  have "agrees (\<lambda>q. NumV (Fin q))
      (bind_res (get_prop stats ''assets'') (\<lambda>assets.
            if isArray assets \<and>
               (get_field c ''id'' \<noteq> JUndef \<or> get_field c ''name'' \<noteq> JUndef)
            then
              bind_res (opt_toString (get_field c ''id'')) (\<lambda>chunkId.
                sum_chunk_assets chunkId
                  (or_js (first_elem (get_field c ''names'')) (get_field c ''name''))
                  (elements assets) 0)
            else Ok 0))
      (bind_out (prop_of stats ''assets'') (\<lambda>assets.
            if isArray assets \<and>
               (get_field c ''id'' \<noteq> JUndef \<or> get_field c ''name'' \<noteq> JUndef)
            then
              bind_out (opt_text_of rt (get_field c ''id'')) (\<lambda>chunkId.
                sum_chunk_assets_any rt chunkId
                  (or_js (first_elem (get_field c ''names'')) (get_field c ''name''))
                  (elements assets) (NumV (Fin 0)))
            else Returned (NumV (Fin 0))))"
  proof (rule agrees_bind[where ?e1.0 = "\<lambda>x. x"])
    show "agrees (\<lambda>x. x) (get_prop stats ''assets'') (prop_of stats ''assets'')"
      by (simp add: get_prop_def prop_of_def)
  next
    fix assets
    show "agrees (\<lambda>q. NumV (Fin q))
        (if isArray assets \<and> (get_field c ''id'' \<noteq> JUndef \<or> get_field c ''name'' \<noteq> JUndef)
         then bind_res (opt_toString (get_field c ''id'')) (\<lambda>chunkId.
                sum_chunk_assets chunkId
                  (or_js (first_elem (get_field c ''names'')) (get_field c ''name''))
                  (elements assets) 0)
         else Ok 0)
        (if isArray assets \<and> (get_field c ''id'' \<noteq> JUndef \<or> get_field c ''name'' \<noteq> JUndef)
         then bind_out (opt_text_of rt (get_field c ''id'')) (\<lambda>chunkId.
                sum_chunk_assets_any rt chunkId
                  (or_js (first_elem (get_field c ''names'')) (get_field c ''name''))
                  (elements assets) (NumV (Fin 0)))
         else Returned (NumV (Fin 0)))"
    proof (cases "isArray assets \<and>
        (get_field c ''id'' \<noteq> JUndef \<or> get_field c ''name'' \<noteq> JUndef)")
      case False
      then show ?thesis by auto
    next
      case True
      have "agrees (\<lambda>q. NumV (Fin q))
          (bind_res (opt_toString (get_field c ''id'')) (\<lambda>chunkId.
                sum_chunk_assets chunkId
                  (or_js (first_elem (get_field c ''names'')) (get_field c ''name''))
                  (elements assets) 0))
          (bind_out (opt_text_of rt (get_field c ''id'')) (\<lambda>chunkId.
                sum_chunk_assets_any rt chunkId
                  (or_js (first_elem (get_field c ''names'')) (get_field c ''name''))
                  (elements assets) (NumV (Fin 0))))"
        by (rule agrees_bind[OF opt_toString_agrees]) (rule sum_chunk_assets_agrees)
      with True show ?thesis by (simp only: if_True simp_thms)
    qed
  qed
  with True show ?thesis
    by (simp add: calculateChunkSize_def calculateChunkSize_any_def not_number_case
        sum_module_sizes_agrees)
qed

lemma map_of_embed:
  "map_of (map (\<lambda>p. (fst p, f (snd p))) ps) k = map_option f (map_of ps k)"
  by (induction ps) auto

lemma set_own_embed:
  "set_own (map (\<lambda>p. (fst p, f (snd p))) ps) k (f v) =
   map (\<lambda>p. (fst p, f (snd p))) (set_own ps k v)"
  by (induction ps) auto

lemma num_or_zero_Ok:
  "num_or_zero x = Ok q \<Longrightarrow> plus_or_zero rt (NumV (Fin a)) x = Returned (NumV (Fin (a + q)))"
  using num_or_zero_agrees[of a x rt] by simp

lemma num_or_zero_cases: "num_or_zero x = Unmodelled \<or> (\<exists>q. num_or_zero x = Ok q)"
  by (cases x) auto

lemma extname_agrees: "agrees (\<lambda>x. x) (extname_of v) (extname_any v)"
  by (cases v) simp_all

lemma type_total_embed:
  "ext \<notin> set object_prototype_names \<Longrightarrow>
   type_total rt (map (\<lambda>p. (fst p, NumV (Fin (snd p)))) byType) ext =
   NumV (Fin (case map_of byType ext of Some v \<Rightarrow> v | None \<Rightarrow> 0))"
proof -
  assume "ext \<notin> set object_prototype_names"
  then have "ext \<noteq> ''__proto__''" by (auto simp: object_prototype_names_def)
  with \<open>ext \<notin> set object_prototype_names\<close> show ?thesis
    by (cases "map_of byType ext")
      (simp_all add: type_total_def map_of_embed[where f = "\<lambda>x. NumV (Fin x)"])
qed

lemma embed_metrics_sel [simp]:
  "totalSize_any (embed_metrics m) = NumV (Fin (totalSize m))"
  "totalSizeByType_any (embed_metrics m) = map (\<lambda>p. (fst p, NumV (Fin (snd p)))) (totalSizeByType m)"
  "entrypoints_any (embed_metrics m) = map (\<lambda>p. (fst p, embed_entrypoint (snd p))) (entrypoints m)"
  "largestModules_any (embed_metrics m) = map embed_module (largestModules m)"
  "largestChunks_any (embed_metrics m) = map embed_chunk (largestChunks m)"
  "moduleCount_any (embed_metrics m) = moduleCount m"
  "chunkCount_any (embed_metrics m) = chunkCount m"
  "assetCount_any (embed_metrics m) = assetCount m"
  "buildTime_any (embed_metrics m) = buildTime m"
  "performance_any (embed_metrics m) = embed_performance (performance m)"
  by (simp_all add: embed_metrics_def)

lemma embed_metrics_upd:
  "(embed_metrics m)\<lparr>totalSize_any := NumV (Fin t),
      totalSizeByType_any := map (\<lambda>p. (fst p, NumV (Fin (snd p)))) bt\<rparr> =
   embed_metrics (m\<lparr>totalSize := t, totalSizeByType := bt\<rparr>)"
  "(embed_metrics m)\<lparr>assetCount_any := n\<rparr> = embed_metrics (m\<lparr>assetCount := n\<rparr>)"
  "(embed_metrics m)\<lparr>entrypoints_any := map (\<lambda>p. (fst p, embed_entrypoint (snd p))) es,
      performance_any := embed_performance pf\<rparr> =
   embed_metrics (m\<lparr>entrypoints := es, performance := pf\<rparr>)"
  "(embed_metrics m)\<lparr>moduleCount_any := n, largestModules_any := map embed_module lm\<rparr> =
   embed_metrics (m\<lparr>moduleCount := n, largestModules := lm\<rparr>)"
  "(embed_metrics m)\<lparr>chunkCount_any := n, largestChunks_any := map embed_chunk lc,
      performance_any := embed_performance pf\<rparr> =
   embed_metrics (m\<lparr>chunkCount := n, largestChunks := lc, performance := pf\<rparr>)"
  "(embed_metrics m)\<lparr>performance_any := embed_performance pf\<rparr> =
   embed_metrics (m\<lparr>performance := pf\<rparr>)"
  by (simp_all add: embed_metrics_def)

lemma initial_metrics_embed: "initial_metrics_any t = embed_metrics (initial_metrics t)"
  by (simp add: initial_metrics_any_def initial_metrics_def embed_metrics_def
      embed_performance_def)

lemma assets_loop_agrees:
  "agrees embed_metrics (assets_loop as m) (assets_loop_any rt as (embed_metrics m))"
proof (induction as arbitrary: m)
  case Nil
  then show ?case by simp
next
  case (Cons a as)
  let ?v = "or_js (get_field a ''name'') (JStr [])"
  show ?case
  proof (cases "truthy a")
    case False
    then show ?thesis by (simp add: Cons)
  next
    case True
    from num_or_zero_cases[of "get_field a ''size''"] show ?thesis
    proof
      assume "num_or_zero (get_field a ''size'') = Unmodelled"
      with True show ?thesis by simp
    next
      assume "\<exists>q. num_or_zero (get_field a ''size'') = Ok q"
      then obtain sz where sz: "num_or_zero (get_field a ''size'') = Ok sz" ..
      note p = num_or_zero_Ok[OF sz, of rt]
      show ?thesis
      proof (cases "extname_of ?v")
        case Unmodelled
        with True sz show ?thesis by simp
      next
        case Throws
        with extname_agrees[of ?v] have "extname_any ?v = Thrown" by simp
        with True sz Throws p show ?thesis by simp
      next
        case (Ok e)
        with extname_agrees[of ?v] have e: "extname_any ?v = Returned e" by simp
        show ?thesis
        proof (cases "file_type e \<in> set object_prototype_names")
          case True
          with \<open>truthy a\<close> sz Ok show ?thesis by (simp add: Let_def)
        next
          case False
          then have np: "file_type e \<noteq> ''__proto__''"
            by (auto simp: object_prototype_names_def)
          let ?t = "(case map_of (totalSizeByType m) (file_type e) of Some v \<Rightarrow> v | None \<Rightarrow> 0) + sz"
          let ?m = "m\<lparr>totalSize := totalSize m + sz,
                     totalSizeByType := set_own (totalSizeByType m) (file_type e) ?t\<rparr>"
          have l: "assets_loop (a # as) m = assets_loop as ?m"
            using \<open>truthy a\<close> sz Ok False by (simp add: Let_def)
          have r: "assets_loop_any rt (a # as) (embed_metrics m) =
              assets_loop_any rt as (embed_metrics ?m)"
            using \<open>truthy a\<close> e p np
            by (simp add: type_total_embed[OF False]
                set_own_embed[where f = "\<lambda>x. NumV (Fin x)"] embed_metrics_upd)
          show ?thesis unfolding l r by (rule Cons)
        qed
      qed
    qed
  qed
qed

lemma assets_pass_agrees:
  "agrees embed_metrics (assets_pass stats m) (assets_pass_any rt stats (embed_metrics m))"
  using assets_loop_agrees[of "elements (get_field stats ''assets'')"
      "m\<lparr>assetCount := length (elements (get_field stats ''assets''))\<rparr>" rt]
  by (simp add: assets_pass_def assets_pass_any_def embed_metrics_upd)

lemma sum_entry_assets_agrees:
  "agrees (\<lambda>q. NumV (Fin q)) (sum_entry_assets as a) (sum_entry_assets_any rt as (NumV (Fin a)))"
proof (induction as arbitrary: a)
  case Nil
  then show ?case by simp
next
  case (Cons x as)
  show ?case
  proof (cases "is_object x")
    case False
    then show ?thesis by (simp add: Cons)
  next
    case True
    have "agrees (\<lambda>q. NumV (Fin q))
        (bind_res (num_or_zero (get_field x ''size'')) (\<lambda>y. sum_entry_assets as (a + y)))
        (bind_out (plus_or_zero rt (NumV (Fin a)) (get_field x ''size'')) (\<lambda>t.
           sum_entry_assets_any rt as t))"
      by (rule agrees_bind[OF num_or_zero_agrees]) (rule Cons)
    with True show ?thesis by simp
  qed
qed

lemma entrypoints_loop_agrees:
  "agrees embed_metrics (entrypoints_loop es m) (entrypoints_loop_any rt es (embed_metrics m))"
proof (induction es arbitrary: m)
  case Nil
  then show ?case by simp
next
  case (Cons e es)
  obtain name ep where e: "e = (name, ep)" by (cases e)
  show ?case
  proof (cases "truthy ep")
    case False
    then show ?thesis unfolding e by (simp add: Cons)
  next
    case True
    let ?r = "if isArray (get_field ep ''assets'')
           then sum_entry_assets (elements (get_field ep ''assets'')) 0 else Ok 0"
    let ?o = "if isArray (get_field ep ''assets'')
           then sum_entry_assets_any rt (elements (get_field ep ''assets'')) (NumV (Fin 0))
           else Returned (NumV (Fin 0))"
    have s: "agrees (\<lambda>q. NumV (Fin q)) ?r ?o"
      by (simp add: sum_entry_assets_agrees)
    show ?thesis
    proof (cases ?r)
      case Unmodelled
      with True show ?thesis unfolding e by simp
    next
      case Throws
      with s have "?o = Thrown" by simp
      with True Throws show ?thesis unfolding e by simp
    next
      case (Ok sz)
      with s have o: "?o = Returned (NumV (Fin sz))" by simp
      let ?m = "m\<lparr>entrypoints :=
                    (if name = ''__proto__'' then entrypoints m
                     else set_own (entrypoints m) name
                            \<lparr>ep_size = sz,
                             ep_chunks = or_js (get_field ep ''chunks'') (JArr [])\<rparr>),
                  performance :=
                    (if name = ''main'' \<or> name = ''index''
                     then (performance m)\<lparr>initialLoad := sz / 1024\<rparr>
                     else performance m)\<rparr>"
      have l: "entrypoints_loop (e # es) m = entrypoints_loop es ?m"
        using True Ok unfolding e by simp
      have pf: "(embed_performance pf)\<lparr>initialLoad_any := Fin (sz / 1024)\<rparr> =
          embed_performance (pf\<lparr>initialLoad := sz / 1024\<rparr>)" for pf
        by (simp add: embed_performance_def)
      have en: "\<lparr>ea_size = NumV (Fin sz), ea_chunks = c\<rparr> =
          embed_entrypoint \<lparr>ep_size = sz, ep_chunks = c\<rparr>" for c
        by (simp add: embed_entrypoint_def)
      let ?u = "\<lambda>entrypointSize. (embed_metrics m)\<lparr>entrypoints_any :=
                    (if name = ''__proto__'' then entrypoints_any (embed_metrics m)
                     else set_own (entrypoints_any (embed_metrics m)) name
                            \<lparr>ea_size = entrypointSize,
                             ea_chunks = or_js (get_field ep ''chunks'') (JArr [])\<rparr>),
                  performance_any :=
                    (if name = ''main'' \<or> name = ''index''
                     then (performance_any (embed_metrics m))
                            \<lparr>initialLoad_any := num_div (acc_num rt entrypointSize) (Fin 1024)\<rparr>
                     else performance_any (embed_metrics m))\<rparr>"
      have "entrypoints_loop_any rt (e # es) (embed_metrics m) =
          bind_out ?o (\<lambda>entrypointSize. entrypoints_loop_any rt es (?u entrypointSize))"
        using True unfolding e by (simp only: entrypoints_loop_any.simps if_False simp_thms)
      also have "\<dots> = entrypoints_loop_any rt es (?u (NumV (Fin sz)))"
        by (simp only: o bind_out.simps)
      also have "?u (NumV (Fin sz)) = embed_metrics ?m"
        by (cases "name = ''__proto__''"; cases "name = ''main'' \<or> name = ''index''")
          (simp_all add: pf en set_own_embed[where f = embed_entrypoint] embed_metrics_def)
      finally have r: "entrypoints_loop_any rt (e # es) (embed_metrics m) =
          entrypoints_loop_any rt es (embed_metrics ?m)" .
      show ?thesis unfolding l r by (rule Cons)
    qed
  qed
qed

lemma entrypoints_pass_agrees:
  "agrees embed_metrics (entrypoints_pass stats m)
     (entrypoints_pass_any rt stats (embed_metrics m))"
  by (simp add: entrypoints_pass_def entrypoints_pass_any_def entrypoints_loop_agrees)

lemma insert_desc_embed:
  "insert_desc (Fin (fst x), h x) (map (\<lambda>p. (Fin (fst p), h p)) ys) =
   map (\<lambda>p. (Fin (fst p), h p)) (insort_key (\<lambda>p. - fst p) x ys)"
  by (induction ys) auto

lemma sort_any_embed:
  "sort_any rt (map (\<lambda>p. (Fin (fst p), h p)) ps) = map (\<lambda>p. (Fin (fst p), h p)) (sort_desc ps)"
proof -
  have "foldr insert_desc (map (\<lambda>p. (Fin (fst p), h p)) ps) [] =
      map (\<lambda>p. (Fin (fst p), h p)) (foldr (insort_key (\<lambda>p. - fst p)) ps [])"
    by (induction ps) (simp_all add: insert_desc_embed)
  then show ?thesis by (simp add: sort_any_def sort_desc_def sort_key_def)
qed

lemma valid_module_agrees: "agrees (\<lambda>x. x) (valid_module x) (valid_module_any rt x)"
  by (simp add: valid_module_def valid_module_any_def gt_zero_agrees)

lemma num_or_zero_to_num:
  "num_or_zero x = Ok k \<Longrightarrow> to_num rt (or_js x (JNum 0)) = Returned (Fin k)"
  by (cases x) (auto simp: to_num_def or_js_def split: if_splits)

lemma module_key_agrees:
  "agrees (\<lambda>p. (Fin (fst p), snd p)) (module_key x) (module_key_any rt x)"
proof (cases "num_or_zero (get_field x ''size'')")
  case (Ok k)
  with num_or_zero_to_num[OF Ok, of rt] show ?thesis
    by (simp add: module_key_def module_key_any_def)
next
  case Throws
  then show ?thesis by (cases "get_field x ''size''") (simp_all split: if_splits)
next
  case Unmodelled
  then show ?thesis by (simp add: module_key_def)
qed

lemma module_keys_sizes:
  "map_res module_key xs = Ok keyed \<Longrightarrow>
   \<forall>p \<in> set keyed. num_or_zero (get_field (snd p) ''size'') = Ok (fst p)"
proof (induction xs arbitrary: keyed)
  case Nil
  then show ?case by simp
next
  case (Cons x xs)
  from Cons.prems obtain y ys where y: "module_key x = Ok y"
    and ys: "map_res module_key xs = Ok ys" and k: "keyed = y # ys"
    by (auto simp: bind_res_Ok_iff)
  from y have "num_or_zero (get_field (snd y) ''size'') = Ok (fst y)"
    by (auto simp: module_key_def bind_res_Ok_iff)
  with Cons.IH[OF ys] show ?case unfolding k by simp
qed

lemma getModuleType_agrees: "agrees (\<lambda>x. x) (getModuleType_of v) (getModuleType_any v)"
  by (cases v) simp_all

lemma or_zero_size:
  "num_or_zero x = Ok k \<Longrightarrow> or_js x (JNum 0) = JNum k"
  by (cases x) (auto simp: or_js_def split: if_splits)

lemma module_entry_agrees:
  assumes "num_or_zero (get_field (snd p) ''size'') = Ok (fst p)"
  shows "agrees embed_module (module_entry p) (module_entry_any (Fin (fst p), snd p))"
  unfolding module_entry_def module_entry_any_def snd_conv
  by (rule agrees_bind[OF getModuleType_agrees])
    (simp add: embed_module_def or_zero_size[OF assms])

lemma modules_pass_agrees:
  "agrees embed_metrics (modules_pass stats m) (modules_pass_any rt stats (embed_metrics m))"
proof (cases "isArray (get_field stats ''modules'')")
  case False
  then show ?thesis by (simp add: modules_pass_def modules_pass_any_def)
next
  case True
  let ?ms = "elements (get_field stats ''modules'')"
  let ?e = "\<lambda>p :: rat \<times> jv. (Fin (fst p), snd p)"
  have "agrees embed_metrics
      (bind_res (filter_res valid_module ?ms) (\<lambda>valid.
        bind_res (map_res module_key valid) (\<lambda>keyed.
        bind_res (map_res module_entry (take 20 (sort_desc keyed))) (\<lambda>largest.
          Ok (m\<lparr>moduleCount := length valid, largestModules := largest\<rparr>)))))
      (bind_out (filter_out (valid_module_any rt) ?ms) (\<lambda>valid.
        bind_out (map_out (module_key_any rt) valid) (\<lambda>keyed.
        bind_out (map_out module_entry_any (take 20 (sort_any rt keyed))) (\<lambda>largest.
          Returned ((embed_metrics m)\<lparr>moduleCount_any := length valid,
            largestModules_any := largest\<rparr>)))))"
  proof (rule agrees_bind[OF agrees_filter])
    fix x show "agrees (\<lambda>x. x) (valid_module x) (valid_module_any rt x)"
      by (rule valid_module_agrees)
  next
    fix valid
    show "agrees embed_metrics
        (bind_res (map_res module_key valid) (\<lambda>keyed.
          bind_res (map_res module_entry (take 20 (sort_desc keyed))) (\<lambda>largest.
            Ok (m\<lparr>moduleCount := length valid, largestModules := largest\<rparr>))))
        (bind_out (map_out (module_key_any rt) valid) (\<lambda>keyed.
          bind_out (map_out module_entry_any (take 20 (sort_any rt keyed))) (\<lambda>largest.
            Returned ((embed_metrics m)\<lparr>moduleCount_any := length valid,
              largestModules_any := largest\<rparr>))))"
    proof (rule agrees_bind[where ?e1.0 = "map ?e"])
      show "agrees (map ?e) (map_res module_key valid) (map_out (module_key_any rt) valid)"
        using agrees_map[where h = "\<lambda>x. x" and xs = valid, OF module_key_agrees] by simp
    next
      fix keyed assume k: "map_res module_key valid = Ok keyed"
      have s: "take 20 (sort_any rt (map ?e keyed)) = map ?e (take 20 (sort_desc keyed))"
        by (simp add: sort_any_embed take_map)
      show "agrees embed_metrics
          (bind_res (map_res module_entry (take 20 (sort_desc keyed))) (\<lambda>largest.
            Ok (m\<lparr>moduleCount := length valid, largestModules := largest\<rparr>)))
          (bind_out (map_out module_entry_any (take 20 (sort_any rt (map ?e keyed)))) (\<lambda>largest.
            Returned ((embed_metrics m)\<lparr>moduleCount_any := length valid,
              largestModules_any := largest\<rparr>)))"
        unfolding s
      proof (rule agrees_bind[where ?e1.0 = "map embed_module"])
        show "agrees (map embed_module) (map_res module_entry (take 20 (sort_desc keyed)))
            (map_out module_entry_any (map ?e (take 20 (sort_desc keyed))))"
        proof (rule agrees_map)
          fix p assume "p \<in> set (take 20 (sort_desc keyed))"
          then have "p \<in> set keyed" by (auto dest: in_set_takeD simp: set_sort_desc)
          with module_keys_sizes[OF k] show "agrees embed_module (module_entry p) (module_entry_any (?e p))"
            by (intro module_entry_agrees) simp
        qed
      qed (simp add: embed_metrics_upd)
    qed
  qed
  with True show ?thesis by (simp add: modules_pass_def modules_pass_any_def)
qed

lemma chunk_key_agrees:
  "agrees (\<lambda>p. ((Fin (fst p), NumV (Fin (fst p))), snd p)) (chunk_key stats c)
     (chunk_key_any rt stats c)"
  unfolding chunk_key_def chunk_key_any_def
  by (rule agrees_bind[OF calculateChunkSize_agrees]) simp

lemma sort_chunks_any_embed:
  "sort_chunks_any rt (map (\<lambda>p. ((Fin (fst p), NumV (Fin (fst p))), snd p)) keyed) =
   map (\<lambda>p. ((Fin (fst p), NumV (Fin (fst p))), snd p)) (sort_desc keyed)"
  using sort_any_embed[of rt "\<lambda>p. ((Fin (fst p), NumV (Fin (fst p))), snd p)" keyed]
  by (simp add: sort_chunks_any_def comp_def)

lemma chunk_entry_agrees:
  "agrees embed_chunk (chunk_entry p)
     (chunk_entry_any rt ((Fin (fst p), NumV (Fin (fst p))), snd p))"
  unfolding chunk_entry_def chunk_entry_any_def snd_conv fst_conv
  by (rule agrees_bind[OF opt_toString_agrees]) (simp add: embed_chunk_def)

lemma chunks_pass_agrees:
  "agrees embed_metrics (chunks_pass stats m) (chunks_pass_any rt stats (embed_metrics m))"
proof (cases "isArray (get_field stats ''chunks'')")
  case False
  then show ?thesis by (simp add: chunks_pass_def chunks_pass_any_def)
next
  case True
  let ?cs = "valid_chunks stats"
  let ?e = "\<lambda>p :: rat \<times> jv. ((Fin (fst p), NumV (Fin (fst p))), snd p)"
  let ?pf = "if 0 < length ?cs
             then (performance m)
                    \<lparr>chunkFragmentation :=
                       min (of_nat (length ?cs) / of_nat (max (length (entrypoints m)) 1)) 100\<rparr>
             else performance m"
  let ?pf' = "if 0 < length ?cs
             then (performance_any (embed_metrics m))
                    \<lparr>chunkFragmentation_any :=
                       min (of_nat (length ?cs) /
                            of_nat (max (length (entrypoints_any (embed_metrics m))) 1)) 100\<rparr>
             else performance_any (embed_metrics m)"
  have pf: "?pf' = embed_performance ?pf"
    by (simp add: embed_performance_def)
  have "agrees embed_metrics
      (bind_res (map_res (chunk_key stats) ?cs) (\<lambda>keyed.
        bind_res (map_res chunk_entry (take 10 (sort_desc keyed))) (\<lambda>largest.
          Ok (m\<lparr>chunkCount := length ?cs, largestChunks := largest, performance := ?pf\<rparr>))))
      (bind_out (map_out (chunk_key_any rt stats) ?cs) (\<lambda>keyed.
        bind_out (map_out (chunk_entry_any rt) (take 10 (sort_chunks_any rt keyed))) (\<lambda>largest.
          Returned ((embed_metrics m)\<lparr>chunkCount_any := length ?cs,
            largestChunks_any := largest, performance_any := ?pf'\<rparr>))))"
  proof (rule agrees_bind[where ?e1.0 = "map ?e"])
    show "agrees (map ?e) (map_res (chunk_key stats) ?cs) (map_out (chunk_key_any rt stats) ?cs)"
      using agrees_map[where h = "\<lambda>x. x" and xs = ?cs, OF chunk_key_agrees] by simp
  next
    fix keyed
    have s: "take 10 (sort_chunks_any rt (map ?e keyed)) = map ?e (take 10 (sort_desc keyed))"
      by (simp only: sort_chunks_any_embed take_map)
    show "agrees embed_metrics
        (bind_res (map_res chunk_entry (take 10 (sort_desc keyed))) (\<lambda>largest.
          Ok (m\<lparr>chunkCount := length ?cs, largestChunks := largest, performance := ?pf\<rparr>)))
        (bind_out (map_out (chunk_entry_any rt) (take 10 (sort_chunks_any rt (map ?e keyed))))
          (\<lambda>largest.
          Returned ((embed_metrics m)\<lparr>chunkCount_any := length ?cs,
            largestChunks_any := largest, performance_any := ?pf'\<rparr>)))"
      unfolding s pf
    proof (rule agrees_bind[where ?e1.0 = "map embed_chunk"])
      show "agrees (map embed_chunk) (map_res chunk_entry (take 10 (sort_desc keyed)))
          (map_out (chunk_entry_any rt) (map ?e (take 10 (sort_desc keyed))))"
        by (rule agrees_map) (rule chunk_entry_agrees)
    qed (simp add: embed_metrics_upd)
  qed
  with True show ?thesis by (simp add: chunks_pass_def chunks_pass_any_def)
qed

lemma entry_size_embed:
  "entry_size_any (embed_metrics m) name = map_option (\<lambda>q. NumV (Fin q)) (entry_size m name)"
proof -
  have "ea_size (embed_entrypoint e) = NumV (Fin (ep_size e))" for e
    by (simp add: embed_entrypoint_def)
  then show ?thesis
    by (simp add: entry_size_any_def entry_size_def map_of_embed[where f = embed_entrypoint]
        option.map_comp comp_def)
qed

lemma mainBundleSize_embed:
  "mainBundleSize_any (embed_metrics m) = NumV (Fin (mainBundleSize m))"
  by (simp add: mainBundleSize_any_def mainBundleSize_def entry_size_embed truthy_size_def
      split: option.splits)

lemma cache_pass_embed: "cache_pass_any rt (embed_metrics m) = embed_metrics (cache_pass m)"
proof (cases "0 < totalSize m \<and> 1 < chunkCount m")
  case False
  then show ?thesis by (auto simp: cache_pass_any_def cache_pass_def)
next
  case True
  have "(embed_performance pf)\<lparr>cacheEfficiency_any := Fin q\<rparr> =
      embed_performance (pf\<lparr>cacheEfficiency := q\<rparr>)" for pf q
    by (simp add: embed_performance_def)
  with True show ?thesis
    by (simp add: cache_pass_any_def cache_pass_def mainBundleSize_embed num_sub_def
        num_min_def min_def embed_metrics_upd)
qed

lemma extract_body_agrees:
  "agrees embed_metrics (extract_body stats) (extract_body_any rt stats)"
  unfolding extract_body_def extract_body_any_def
proof (rule agrees_bind[where ?e1.0 = "\<lambda>x. x"])
  show "agrees (\<lambda>x. x) (get_prop stats ''time'') (prop_of stats ''time'')"
    by (simp add: get_prop_def prop_of_def)
next
  fix t
  show "agrees embed_metrics
      (bind_res (assets_pass stats (initial_metrics (or_js t (JNum 0)))) (\<lambda>m1.
       bind_res (entrypoints_pass stats m1) (\<lambda>m2.
       bind_res (modules_pass stats m2) (\<lambda>m3.
       bind_res (chunks_pass stats m3) (\<lambda>m4. Ok (cache_pass m4))))))
      (bind_out (assets_pass_any rt stats (initial_metrics_any (or_js t (JNum 0)))) (\<lambda>m1.
       bind_out (entrypoints_pass_any rt stats m1) (\<lambda>m2.
       bind_out (modules_pass_any rt stats m2) (\<lambda>m3.
       bind_out (chunks_pass_any rt stats m3) (\<lambda>m4. Returned (cache_pass_any rt m4))))))"
    unfolding initial_metrics_embed
    by (intro agrees_bind[where ?e1.0 = embed_metrics] assets_pass_agrees
        entrypoints_pass_agrees modules_pass_agrees chunks_pass_agrees)
      (simp add: cache_pass_embed)
qed

lemma extractMetrics_agrees:
  "extractMetrics stats = Ok r \<Longrightarrow> extractMetrics_any rt stats = embed_report r"
  using extract_body_agrees[of stats rt]
  by (cases "extract_body stats") (auto simp: extractMetrics_def extractMetrics_any_def)

lemma supported_numeric_sizes: "supported stats \<Longrightarrow> numeric_sizes stats"
  by (simp add: supported_def numeric_sizes_def supported_chunk_def)

subsection \<open>What the extraction returns\<close>

text \<open>
  On the supported documents the report object is the one of the report that
  \<open>extractMetrics\<close> computes in the first sections.
\<close>

lemma extractMetrics_supported:
  assumes "supported stats"
  shows "\<exists>r. extractMetrics stats = Ok r \<and> extractMetrics_any rt stats = embed_report r"
proof -
  from extract_body_modelled[OF assms] obtain r where "extractMetrics stats = Ok r"
    by (cases "extract_body stats") (simp_all add: extractMetrics_def)
  with extractMetrics_agrees[of stats r rt] show ?thesis by blast
qed

text \<open>
  The asset of \<open>doc_string_size\<close> has the size \<open>"5"\<close>: \<open>0 + "5"\<close> is the string \<open>"05"\<close>,
  in \<open>totalSize\<close> and in the total of \<open>js\<close>.
\<close>

lemma string_size_report:
  "extractMetrics_any rt doc_string_size =
     MetricsObject
       ((initial_metrics_any (JNum 0))
          \<lparr>totalSize_any := StrV ''05'', totalSizeByType_any := [(''js'', StrV ''05'')],
           assetCount_any := 1\<rparr>)"
  by code_simp

lemma embed_report_numeric: "embed_report r = MetricsObject m \<Longrightarrow> numeric_report m"
  by (cases r)
    (auto simp: numeric_report_def embed_metrics_def embed_entrypoint_def embed_module_def
      embed_chunk_def embed_performance_def)

text \<open>
  Claim C1, as stated: for every input \<open>extractMetrics\<close> returns a Metrics Report or the
  value \<open>{error: "Failed to extract metrics"}\<close>. In a Metrics Report \<open>totalSize\<close> is a
  number. On a document whose one asset has the size \<open>"5"\<close> the source returns its metrics
  object with \<open>totalSize\<close> the string \<open>"05"\<close>: no throw, so not the error value, and not the
  object of any Metrics Report.
\<close>

theorem string_size_counterexample:
  "\<forall>rt. \<exists>m. extractMetrics_any rt doc_string_size = MetricsObject m \<and>
          totalSize_any m = StrV ''05'' \<and> \<not> numeric_report m \<and>
          (\<forall>r. embed_report r \<noteq> MetricsObject m)"
proof
  fix rt
  let ?m = "(initial_metrics_any (JNum 0))
          \<lparr>totalSize_any := StrV ''05'', totalSizeByType_any := [(''js'', StrV ''05'')],
           assetCount_any := 1\<rparr>"
  have n: "\<not> numeric_report ?m" by (simp add: numeric_report_def)
  then have "embed_report r \<noteq> MetricsObject ?m" for r
    using embed_report_numeric[of r ?m] by blast
  with n string_size_report[of rt]
  show "\<exists>m. extractMetrics_any rt doc_string_size = MetricsObject m \<and>
          totalSize_any m = StrV ''05'' \<and> \<not> numeric_report m \<and>
          (\<forall>r. embed_report r \<noteq> MetricsObject m)"
    by (intro exI[of _ ?m]) simp
qed

text \<open>
  Claim C1, amended. \<open>extractMetrics\<close> is total and never raises: for every input value,
  including \<open>null\<close>, values that are not objects and arbitrarily malformed documents, it
  returns either its metrics object or the value \<open>{error: "Failed to extract metrics"}\<close>,
  whatever the body throws being caught by the handler. The totals and sizes of the
  metrics object are numbers, as in a Metrics Report, whenever every size the document
  gives is a number or falsy and no asset extension names a property of
  \<open>Object.prototype\<close>; a size of another type is added as JavaScript adds it, so that a
  total can be a string.
\<close>

theorem extractMetrics_never_raises:
  "((\<exists>m. extractMetrics_any rt stats = MetricsObject m) \<or>
    extractMetrics_any rt stats = ErrorObject ''Failed to extract metrics'') \<and>
   (numeric_sizes stats \<longrightarrow>
      (\<forall>m. extractMetrics_any rt stats = MetricsObject m \<longrightarrow> numeric_report m))"
proof -
  from extractMetrics_any_cases[of rt stats]
  have "(\<exists>m. extractMetrics_any rt stats = MetricsObject m) \<or>
      extractMetrics_any rt stats = ErrorObject ''Failed to extract metrics''"
    by blast
  moreover have "numeric_report m"
    if "numeric_sizes stats" "extractMetrics_any rt stats = MetricsObject m" for m
    using extractMetrics_any_cases[of rt stats] that
    by (auto dest: extract_body_any_numeric)
  ultimately show ?thesis by blast
qed

text \<open>
  \<open>null\<close> ends in the error value. \<open>doc_mixed\<close>, and a document whose chunk has the
  identifier 1.5, end in a metrics object whose totals and sizes are numbers.
\<close>

theorem extractMetrics_never_raises_witness:
  "\<forall>rt. numeric_sizes JNull \<and>
     extractMetrics_any rt JNull = ErrorObject ''Failed to extract metrics'' \<and>
     numeric_sizes doc_mixed \<and>
     (\<exists>m. extractMetrics_any rt doc_mixed = MetricsObject m \<and> numeric_report m) \<and>
     numeric_sizes doc_fraction_id \<and>
     (\<exists>m. extractMetrics_any rt doc_fraction_id = MetricsObject m \<and> numeric_report m)"
proof
  fix rt
  have s: "numeric_sizes JNull" "numeric_sizes doc_mixed" "numeric_sizes doc_fraction_id"
    by code_simp+
  have e: "extractMetrics_any rt JNull = ErrorObject ''Failed to extract metrics''"
    "extractMetrics_any rt doc_mixed \<noteq> ErrorObject ''Failed to extract metrics''"
    "extractMetrics_any rt doc_fraction_id \<noteq> ErrorObject ''Failed to extract metrics''"
    by code_simp+
  from extractMetrics_never_raises[of rt JNull] extractMetrics_never_raises[of rt doc_mixed]
    extractMetrics_never_raises[of rt doc_fraction_id] s e
  show "numeric_sizes JNull \<and>
     extractMetrics_any rt JNull = ErrorObject ''Failed to extract metrics'' \<and>
     numeric_sizes doc_mixed \<and>
     (\<exists>m. extractMetrics_any rt doc_mixed = MetricsObject m \<and> numeric_report m) \<and>
     numeric_sizes doc_fraction_id \<and>
     (\<exists>m. extractMetrics_any rt doc_fraction_id = MetricsObject m \<and> numeric_report m)"
    by auto
qed

subsection \<open>The document after the extraction\<close>

lemma same_arrays_refl: "same_arrays st st"
  by (simp add: same_arrays_def)

lemma same_arrays_trans: "same_arrays st st1 \<Longrightarrow> same_arrays st1 st2 \<Longrightarrow> same_arrays st st2"
  by (auto simp: same_arrays_def)

lemma alloc_frame:
  "alloc xs st = (a, st') \<Longrightarrow>
   same_arrays st st' \<and> a = length st \<and> st' ! a = xs \<and> length st' = Suc (length st)"
  by (auto simp: alloc_def same_arrays_def nth_append)

text \<open>A sort writes the array it is called on, and only that one.\<close>

lemma sort_st_in_place:
  "a < length st \<Longrightarrow> snd (sort_st key a st) ! a = sort_key (\<lambda>x. - key x) (st ! a)"
  by (simp add: sort_st_def)

lemma sort_st_fresh:
  "length st \<le> a \<Longrightarrow> same_arrays st (snd (sort_st key a st')) = same_arrays st st'"
  by (auto simp: sort_st_def same_arrays_def)

lemma sorted_copy_frame: "same_arrays st (snd (sorted_copy p key n a st))"
proof -
  obtain a1 st1 where s1: "spread_st a st = (a1, st1)" by (cases "spread_st a st")
  obtain a2 st2 where s2: "filter_st p a1 st1 = (a2, st2)" by (cases "filter_st p a1 st1")
  obtain a3 st3 where s3: "sort_st key a2 st2 = (a3, st3)" by (cases "sort_st key a2 st2")
  obtain a4 st4 where s4: "slice_st n a3 st3 = (a4, st4)" by (cases "slice_st n a3 st3")
  from s1 have f1: "same_arrays st st1" "length st1 = Suc (length st)"
    by (auto simp: spread_st_def dest: alloc_frame)
  from s2 have f2: "same_arrays st1 st2" "a2 = length st1"
    by (auto simp: filter_st_def dest: alloc_frame)
  have "same_arrays st st2" using f1(1) f2(1) by (rule same_arrays_trans)
  moreover have "length st \<le> a2" using f1(2) f2(2) by simp
  ultimately have f3: "same_arrays st st3"
    using sort_st_fresh[of st a2 key st2] s3 by simp
  from s4 have "same_arrays st3 st4" by (auto simp: slice_st_def dest: alloc_frame)
  with f3 have "same_arrays st st4" by (rule same_arrays_trans)
  then show ?thesis by (simp add: sorted_copy_def s1 s2 s3 s4)
qed

text \<open>The array the pipeline returns holds the sorted selection.\<close>

lemma sorted_copy_result:
  assumes "a < length st" and "sorted_copy p key n a st = (r, st')"
  shows "st' ! r = take n (sort_key (\<lambda>x. - key x) (filter p (st ! a)))"
  using assms
  by (auto simp: sorted_copy_def spread_st_def filter_st_def sort_st_def slice_st_def alloc_def
      nth_append Let_def)

lemma counted_and_sorted_frame: "same_arrays st (counted_and_sorted p key n arr st)"
proof (cases arr)
  case None
  then show ?thesis by (simp add: counted_and_sorted_def same_arrays_refl)
next
  case (Some a)
  obtain a0 st0 where s0: "filter_st p a st = (a0, st0)" by (cases "filter_st p a st")
  then have "same_arrays st st0" by (auto simp: filter_st_def dest: alloc_frame)
  moreover have "same_arrays st0 (snd (sorted_copy p key n a st0))" by (rule sorted_copy_frame)
  ultimately show ?thesis unfolding counted_and_sorted_def Some
    by (simp add: s0) (rule same_arrays_trans)
qed

text \<open>
  The store and the functions on values describe the same pipeline: the chunks and modules
  that the passes report are the elements of the array the pipeline returns.
\<close>

lemma insort_key_keyed:
  "insort_key (\<lambda>p. - fst p) (k x, x) (map (\<lambda>x. (k x, x)) ys)
     = map (\<lambda>x. (k x, x)) (insort_key (\<lambda>x. - k x) x ys)"
  by (induction ys) simp_all

lemma sort_desc_keyed:
  "sort_desc (map (\<lambda>x. (k x, x)) xs) = map (\<lambda>x. (k x, x)) (sort_key (\<lambda>x. - k x) xs)"
  unfolding sort_desc_def
  by (induction xs) (simp_all add: insort_key_keyed)

lemma chunk_keys_keyed:
  "map_res (chunk_key stats) cs = Ok keyed \<Longrightarrow>
   keyed = map (\<lambda>c. (key_of (calculateChunkSize c stats), c)) cs"
proof (induction cs arbitrary: keyed)
  case Nil
  then show ?case by simp
next
  case (Cons c cs)
  from Cons.prems obtain p rest where
    p: "chunk_key stats c = Ok p" and r: "map_res (chunk_key stats) cs = Ok rest"
    and keyed: "keyed = p # rest"
    by (auto simp: bind_res_Ok_iff)
  from p have "p = (key_of (calculateChunkSize c stats), c)"
    by (cases p) (simp add: chunk_key_Ok key_of_def)
  with Cons.IH[OF r] keyed show ?case by simp
qed

lemma module_keys_keyed:
  "map_res module_key ms = Ok keyed \<Longrightarrow>
   keyed = map (\<lambda>m. (key_of (num_or_zero (get_field m ''size'')), m)) ms"
proof (induction ms arbitrary: keyed)
  case Nil
  then show ?case by simp
next
  case (Cons m ms)
  from Cons.prems obtain p rest where
    p: "module_key m = Ok p" and r: "map_res module_key ms = Ok rest"
    and keyed: "keyed = p # rest"
    by (auto simp: bind_res_Ok_iff)
  from p have "p = (key_of (num_or_zero (get_field m ''size'')), m)"
    by (auto simp: module_key_def bind_res_Ok_iff key_of_def)
  with Cons.IH[OF r] keyed show ?case by simp
qed

lemma sorted_chunks_as_in_store:
  assumes "map_res (chunk_key stats) cs = Ok keyed"
  shows "map snd (take n (sort_desc keyed))
           = take n (sort_key (\<lambda>c. - key_of (calculateChunkSize c stats)) cs)"
  unfolding chunk_keys_keyed[OF assms] sort_desc_keyed
  by (simp add: take_map[symmetric] comp_def)

lemma sorted_modules_as_in_store:
  assumes "map_res module_key ms = Ok keyed"
  shows "map snd (take n (sort_desc keyed))
           = take n (sort_key (\<lambda>m. - key_of (num_or_zero (get_field m ''size''))) ms)"
  unfolding module_keys_keyed[OF assms] sort_desc_keyed
  by (simp add: take_map[symmetric] comp_def)

text \<open>
  Claim C10. \<open>extractMetrics\<close> leaves its input as it was: every array that exists before
  the call, the \<open>modules\<close> and \<open>chunks\<close> sequences among them, holds the same elements in
  the same order after it, because the two sorts run on arrays that \<open>filter\<close> has just
  created from spread copies.
\<close>

theorem extract_store_leaves_document:
  "same_arrays st (extract_store stats modules chunks st)"
  unfolding extract_store_def
  by (rule same_arrays_trans[OF counted_and_sorted_frame counted_and_sorted_frame])

text \<open>
  On the store of \<open>doc_mixed\<close> the two arrays of the document keep their order, and the
  sorted modules are in a new array.
\<close>

theorem extract_store_leaves_document_witness:
  "extract_store doc_mixed (Some 0) (Some 1) store_mixed ! 0 = store_mixed ! 0 \<and>
   extract_store doc_mixed (Some 0) (Some 1) store_mixed ! 1 = store_mixed ! 1 \<and>
   map (\<lambda>x. get_field x ''size'') (store_mixed ! 0) = [JNum 5, JUndef, JNum 9, JNum 7, JNum 0] \<and>
   map (\<lambda>x. get_field x ''size'') (extract_store doc_mixed (Some 0) (Some 1) store_mixed ! 4)
     = [JNum 9, JNum 7, JNum 5]"
proof -
  have l: "length store_mixed = 2" by (simp add: store_mixed_def)
  have "\<forall>b < length store_mixed.
          extract_store doc_mixed (Some 0) (Some 1) store_mixed ! b = store_mixed ! b"
    using extract_store_leaves_document[of store_mixed doc_mixed "Some 0" "Some 1"]
    by (simp add: same_arrays_def)
  then have "extract_store doc_mixed (Some 0) (Some 1) store_mixed ! 0 = store_mixed ! 0"
    and "extract_store doc_mixed (Some 0) (Some 1) store_mixed ! 1 = store_mixed ! 1"
    by (simp_all add: l)
  moreover have "map (\<lambda>x. get_field x ''size'') (store_mixed ! 0)
      = [JNum 5, JUndef, JNum 9, JNum 7, JNum 0]"
    by code_simp
  moreover have "map (\<lambda>x. get_field x ''size'')
      (extract_store doc_mixed (Some 0) (Some 1) store_mixed ! 4) = [JNum 9, JNum 7, JNum 5]"
    by code_simp
  ultimately show ?thesis by simp
qed

end
